theory Spec2Isabelle
  imports Main "HOL-Library.Sublist"
begin

section \<open>Python strings\<close>

text \<open>
  A Python \<open>str\<close> is modelled as a \<open>string\<close>: a list of \<open>char\<close>, each read as one
  code point in the range U+0000..U+00FF. The string methods the driver calls
  (\<open>split\<close>, \<open>strip\<close>, \<open>lower\<close>, and \<open>int\<close> on a string) are written out on that
  range.
\<close>

definition isspace :: "char \<Rightarrow> bool" where
  \<comment> \<open>\<open>str.isspace\<close> on one character: TAB..CR, FS..US, SPACE, NEL and NBSP.\<close>
  "isspace c =
     (let n = (of_char c :: nat)
      in (9 \<le> n \<and> n \<le> 13) \<or> (28 \<le> n \<and> n \<le> 32) \<or> n = 133 \<or> n = 160)"

definition strip :: "string \<Rightarrow> string" where
  \<comment> \<open>\<open>s.strip()\<close>: leading and trailing whitespace removed.\<close>
  "strip s = rev (dropWhile isspace (rev (dropWhile isspace s)))"

definition lower_char :: "char \<Rightarrow> char" where
  \<comment> \<open>A..Z and the capital letters of U+00C0..U+00DE (not the sign U+00D7) move up by 32.\<close>
  "lower_char c =
     (let n = (of_char c :: nat)
      in if (65 \<le> n \<and> n \<le> 90) \<or> (192 \<le> n \<and> n \<le> 222 \<and> n \<noteq> 215)
         then char_of (n + 32) else c)"

definition lower :: "string \<Rightarrow> string" where
  "lower s = map lower_char s"

function str_split :: "char \<Rightarrow> string \<Rightarrow> string list" where
  \<comment> \<open>\<open>s.split(sep)\<close> for a one-character separator: never the empty list.\<close>
  "str_split sep s =
     (if sep \<in> set s
      then takeWhile (\<lambda>c. c \<noteq> sep) s # str_split sep (tl (dropWhile (\<lambda>c. c \<noteq> sep) s))
      else [s])"
  by pat_completeness auto
termination
proof (relation "measure (\<lambda>(sep, s). length s)")
  show "wf (measure (\<lambda>(sep, s). length s))"
    by simp
next
  fix sep :: char and s :: string
  assume "sep \<in> set s"
  then have "dropWhile (\<lambda>c. c \<noteq> sep) s \<noteq> []"
    by simp
  then have "length (tl (dropWhile (\<lambda>c. c \<noteq> sep) s)) < length (dropWhile (\<lambda>c. c \<noteq> sep) s)"
    by (cases "dropWhile (\<lambda>c. c \<noteq> sep) s") simp_all
  also have "\<dots> \<le> length s"
    by (rule length_dropWhile_le)
  finally show "((sep, tl (dropWhile (\<lambda>c. c \<noteq> sep) s)), (sep, s)) \<in> measure (\<lambda>(sep, s). length s)"
    by simp
qed

declare str_split.simps [simp del]

fun str_join :: "char \<Rightarrow> string list \<Rightarrow> string" where
  \<comment> \<open>\<open>sep.join(parts)\<close>, the decorated form \<open>path[:scopePath]*\<close> read backwards.\<close>
  "str_join sep [] = []"
| "str_join sep [p] = p"
| "str_join sep (p # q # ps) = p @ sep # str_join sep (q # ps)"

definition is_digit :: "char \<Rightarrow> bool" where
  "is_digit c = (let n = (of_char c :: nat) in 48 \<le> n \<and> n \<le> 57)"

definition digits_value :: "string \<Rightarrow> int" where
  "digits_value ds = foldl (\<lambda>a c. 10 * a + (int (of_char c) - 48)) 0 ds"

definition int_space :: "char \<Rightarrow> bool" where
  \<comment> \<open>the whitespace \<open>int\<close> skips around a literal: TAB..CR, SPACE, NEL and NBSP, and not
      FS..US, which \<open>str.strip\<close> removes\<close>
  "int_space c =
     (let n = (of_char c :: nat)
      in (9 \<le> n \<and> n \<le> 13) \<or> n = 32 \<or> n = 133 \<or> n = 160)"

definition max_str_digits :: nat where
  \<comment> \<open>\<open>sys.get_int_max_str_digits()\<close>, at its default\<close>
  "max_str_digits = 4300"

definition py_int :: "string \<Rightarrow> int option" where
  \<comment> \<open>\<open>int(s)\<close> in base 10: surrounding whitespace, one optional sign, decimal digits
      with single underscores between them, at most \<open>max_str_digits\<close> digits; \<open>None\<close> where
      Python raises ValueError.\<close>
  "py_int s =
     (let t = rev (dropWhile int_space (rev (dropWhile int_space s)));
          neg = (t \<noteq> [] \<and> hd t = CHR ''-'');
          body = (if t \<noteq> [] \<and> (hd t = CHR ''-'' \<or> hd t = CHR ''+'') then tl t else t);
          groups = str_split CHR ''_'' body
      in if list_all (\<lambda>g. g \<noteq> [] \<and> list_all is_digit g) groups
            \<and> length (concat groups) \<le> max_str_digits
         then Some ((if neg then - 1 else 1) * digits_value (concat groups))
         else None)"

section \<open>Errors, the command line and the parsed arguments\<close>

datatype error =
    ArgumentError string   \<comment> \<open>\<open>parser.error\<close>: usage message, exit status 2\<close>
  | OSError string         \<comment> \<open>\<open>open\<close> failed on this path\<close>
  | EOFError               \<comment> \<open>\<open>input\<close> at the end of standard input\<close>
  | IndexError             \<comment> \<open>\<open>parts[0]\<close> on an empty list\<close>
  | ServiceError string    \<comment> \<open>any exception raised inside \<open>DocstringService\<close>\<close>

text \<open>
  The command line after argparse has recognised its option strings: the options in
  the order given, each value option with its raw argument string, and the positional
  filenames. How argparse spells options (abbreviations, \<open>--opt=value\<close>, clustered
  flags, \<open>-h\<close>) is below this model; what each \<open>add_argument\<close> call declares
  (type, default, choices, action) is in it.
\<close>

datatype cli_option =
    Opt_attempts string
  | Opt_create
  | Opt_depth string
  | Opt_log_level string
  | Opt_modify
  | Opt_preview
  | Opt_report
  | Opt_update
  | Opt_validate

record namespace =
  attempts :: int
  create :: bool
  depth :: int
  log_level :: int
  modify :: bool
  preview :: bool
  report :: bool
  update :: bool
  validate :: bool
  filenames :: "string list"

record arguments = namespace +
  example_docstring :: string
  example_function :: string

definition defaults :: namespace where
  "defaults =
     \<lparr>attempts = 5, create = False, depth = 1, log_level = 0, modify = False,
      preview = False, report = False, update = False, validate = False, filenames = []\<rparr>"

fun store_option :: "cli_option \<Rightarrow> namespace \<Rightarrow> error + namespace" where
  "store_option (Opt_attempts v) ns =
     (case py_int v of
        None \<Rightarrow> Inl (ArgumentError v)
      | Some n \<Rightarrow> Inr (ns\<lparr>attempts := n\<rparr>))"
| "store_option Opt_create ns = Inr (ns\<lparr>create := True\<rparr>)"
| "store_option (Opt_depth v) ns =
     (case py_int v of
        None \<Rightarrow> Inl (ArgumentError v)
      | Some n \<Rightarrow> Inr (ns\<lparr>depth := n\<rparr>))"
| "store_option (Opt_log_level v) ns =
     (case py_int v of
        None \<Rightarrow> Inl (ArgumentError v)
      | Some n \<Rightarrow>
          if 0 \<le> n \<and> n < 3 then Inr (ns\<lparr>log_level := n\<rparr>) else Inl (ArgumentError v))"
| "store_option Opt_modify ns = Inr (ns\<lparr>modify := True\<rparr>)"
| "store_option Opt_preview ns = Inr (ns\<lparr>preview := True\<rparr>)"
| "store_option Opt_report ns = Inr (ns\<lparr>report := True\<rparr>)"
| "store_option Opt_update ns = Inr (ns\<lparr>update := True\<rparr>)"
| "store_option Opt_validate ns = Inr (ns\<lparr>validate := True\<rparr>)"

fun store_options :: "cli_option list \<Rightarrow> namespace \<Rightarrow> error + namespace" where
  "store_options [] ns = Inr ns"
| "store_options (opt # opts) ns =
     (case store_option opt ns of
        Inl e \<Rightarrow> Inl e
      | Inr ns' \<Rightarrow> store_options opts ns')"

definition parse_args :: "cli_option list \<Rightarrow> string list \<Rightarrow> error + namespace" where
  "parse_args opts names = store_options opts (defaults\<lparr>filenames := names\<rparr>)"

datatype log_threshold = NOTSET | DEBUG | INFO | CRITICAL   \<comment> \<open>the level \<open>get_logger\<close> sets\<close>

section \<open>The environment of the driver\<close>

text \<open>
  Every call the driver makes to its environment or to the docstring service is appended
  to a trace when it is made, whether or not it then raises. The four \<open>print\<close> sites of
  \<open>main\<close> have an event each.
\<close>

type_synonym report_entry = string   \<comment> \<open>a report entry, as \<open>print\<close> renders it\<close>

datatype event =
    Open_read string                          \<comment> \<open>\<open>open(path, 'r')\<close> and \<open>read()\<close>\<close>
  | Create_service arguments log_threshold    \<comment> \<open>\<open>DocstringService(args, logger)\<close>\<close>
  | Document_file string "string list option" \<comment> \<open>\<open>document_file(filename, function_paths)\<close>\<close>
  | Print_preview string                      \<comment> \<open>\<open>print(modified_file)\<close>\<close>
  | Input_prompt string                       \<comment> \<open>\<open>input(prompt)\<close>\<close>
  | Open_write string                         \<comment> \<open>\<open>open(filename, 'w')\<close>\<close>
  | Print_status string                       \<comment> \<open>\<open>Updated ...\<close> or \<open>... was NOT updated.\<close>\<close>
  | Print_separator string                    \<comment> \<open>\<open>print('-' * 79)\<close>\<close>
  | Print_report report_entry                 \<comment> \<open>\<open>print(report)\<close>\<close>

record world =
  files :: "string \<rightharpoonup> string"   \<comment> \<open>readable files and their text\<close>
  unwritable :: "string \<Rightarrow> bool"  \<comment> \<open>paths on which \<open>open(path, 'w')\<close> raises\<close>
  stdin :: "string list"            \<comment> \<open>the lines still to be read by \<open>input\<close>\<close>
  trace :: "event list"

definition emit :: "event \<Rightarrow> world \<Rightarrow> world" where
  "emit e w = w\<lparr>trace := trace w @ [e]\<rparr>"

definition new_events :: "world \<Rightarrow> world \<Rightarrow> event list" where
  \<comment> \<open>what a run from \<open>w\<close> to \<open>w'\<close> added to the trace\<close>
  "new_events w w' = drop (length (trace w)) (trace w')"

definition read_file :: "string \<Rightarrow> world \<Rightarrow> (error + string) \<times> world" where
  "read_file path w =
     (let w1 = emit (Open_read path) w
      in case files w1 path of
           None \<Rightarrow> (Inl (OSError path), w1)
         | Some text \<Rightarrow> (Inr text, w1))"

definition write_file :: "string \<Rightarrow> string \<Rightarrow> world \<Rightarrow> (error + unit) \<times> world" where
  "write_file path text w =
     (let w1 = emit (Open_write path) w
      in if unwritable w1 path then (Inl (OSError path), w1)
         else (Inr (), w1\<lparr>files := (files w1)(path \<mapsto> text)\<rparr>))"

definition py_input :: "string \<Rightarrow> world \<Rightarrow> (error + string) \<times> world" where
  "py_input prompt w =
     (let w1 = emit (Input_prompt prompt) w
      in case stdin w1 of
           [] \<Rightarrow> (Inl EOFError, w1)
         | line # rest \<Rightarrow> (Inr line, w1\<lparr>stdin := rest\<rparr>))"

section \<open>\<open>get_arguments\<close> and \<open>get_logger\<close>\<close>

definition example_docstring_path :: string where
  "example_docstring_path = ''samples/example_docstring.txt''"

definition example_function_path :: string where
  "example_function_path = ''samples/example_function.txt''"

definition get_arguments ::
  "cli_option list \<Rightarrow> string list \<Rightarrow> world \<Rightarrow> (error + arguments) \<times> world" where
  "get_arguments opts names w =
     (case parse_args opts names of
        Inl e \<Rightarrow> (Inl e, w)
      | Inr ns \<Rightarrow>
          (case read_file example_docstring_path w of
             (Inl e, w1) \<Rightarrow> (Inl e, w1)
           | (Inr doc, w1) \<Rightarrow>
               (case read_file example_function_path w1 of
                  (Inl e, w2) \<Rightarrow> (Inl e, w2)
                | (Inr fn, w2) \<Rightarrow>
                    (Inr (namespace.extend ns
                            (arguments.fields doc fn)), w2))))"

definition get_logger :: "arguments \<Rightarrow> log_threshold" where
  \<comment> \<open>the level chosen from \<open>args.log_level\<close>; the handler it adds writes to stderr\<close>
  "get_logger args =
     (if log_level args = 0 then CRITICAL
      else if log_level args = 1 then INFO
      else if log_level args = 2 then DEBUG
      else NOTSET)"

section \<open>The docstring service\<close>

text \<open>
  \<open>DocstringService\<close> lives in the module \<open>docstrings\<close>, which the driver imports. The
  driver is verified for every service: the constructor and \<open>document_file\<close> are
  parameters. A service has a state of its own, reads the files, may raise, and returns
  the merged text with the reports (which may be \<open>None\<close>).
\<close>

record 'e docstring_service =
  new_service :: "arguments \<Rightarrow> log_threshold \<Rightarrow> error + 'e"
  document_file ::
    "'e \<Rightarrow> (string \<rightharpoonup> string) \<Rightarrow> string \<Rightarrow> string list option
       \<Rightarrow> (error + string \<times> report_entry list option) \<times> 'e"

section \<open>\<open>main\<close>\<close>

definition split_decorated :: "string \<Rightarrow> error + string \<times> string list option" where
  \<comment> \<open>\<open>parts = decorated_filename.split(':')\<close>, \<open>parts[0]\<close>, \<open>parts[1:]\<close>\<close>
  "split_decorated decorated_filename =
     (let parts = str_split CHR '':'' decorated_filename
      in case parts of
           [] \<Rightarrow> Inl IndexError
         | filename # rest \<Rightarrow>
             Inr (filename, if length parts \<le> 1 then None else Some rest))"

definition save_prompt :: "string \<Rightarrow> string" where
  "save_prompt filename =
     CHR 0x0A # ''Do you want to save these modifications to '' @ filename @ ''? (y/N) ''"

definition show_preview :: "arguments \<Rightarrow> string \<Rightarrow> world \<Rightarrow> world" where
  "show_preview args modified_file w =
     (if preview args then emit (Print_preview modified_file) w else w)"

definition confirm_save :: "arguments \<Rightarrow> string \<Rightarrow> world \<Rightarrow> (error + bool) \<times> world" where
  \<comment> \<open>\<open>save_file\<close>: \<open>not args.preview\<close>, replaced by the answer when \<open>preview\<close> is set\<close>
  "confirm_save args filename w =
     (let save_file = \<not> preview args
      in if preview args
         then (case py_input (save_prompt filename) w of
                 (Inl e, w1) \<Rightarrow> (Inl e, w1)
               | (Inr user_response, w1) \<Rightarrow> (Inr (lower (strip user_response) = ''y''), w1))
         else (Inr save_file, w))"

definition save_step ::
  "arguments \<Rightarrow> string \<Rightarrow> string \<Rightarrow> world \<Rightarrow> (error + unit) \<times> world" where
  "save_step args filename modified_file w =
     (if modify args
      then (case confirm_save args filename w of
              (Inl e, w1) \<Rightarrow> (Inl e, w1)
            | (Inr save_file, w1) \<Rightarrow>
                if save_file
                then (case write_file filename modified_file w1 of
                        (Inl e, w2) \<Rightarrow> (Inl e, w2)
                      | (Inr u, w2) \<Rightarrow> (Inr (), emit (Print_status (''Updated '' @ filename)) w2))
                else (Inr (), emit (Print_status (filename @ '' was NOT updated.'')) w1))
      else (Inr (), w))"

definition report_step :: "arguments \<Rightarrow> report_entry list option \<Rightarrow> world \<Rightarrow> world" where
  "report_step args reports w =
     (case reports of
        None \<Rightarrow> w
      | Some rs \<Rightarrow>
          if report args \<and> length rs > 0
          then foldl (\<lambda>w' r. emit (Print_report r) w')
                 (emit (Print_separator (replicate 79 CHR ''-'')) w) rs
          else w)"

definition handle_result ::
  "arguments \<Rightarrow> string \<Rightarrow> string \<Rightarrow> report_entry list option \<Rightarrow> world
     \<Rightarrow> (error + unit) \<times> world" where
  \<comment> \<open>the loop body after \<open>document_file\<close> has returned\<close>
  "handle_result args filename modified_file reports w =
     (case save_step args filename modified_file (show_preview args modified_file w) of
        (Inl e, w1) \<Rightarrow> (Inl e, w1)
      | (Inr u, w1) \<Rightarrow> (Inr (), report_step args reports w1))"

definition process_file ::
  "'e docstring_service \<Rightarrow> arguments \<Rightarrow> string \<Rightarrow> 'e \<times> world
     \<Rightarrow> (error + unit) \<times> 'e \<times> world" where
  \<comment> \<open>one iteration of the loop over \<open>args.filenames\<close>\<close>
  "process_file svc args decorated_filename st =
     (case st of (s, w) \<Rightarrow>
        (case split_decorated decorated_filename of
           Inl e \<Rightarrow> (Inl e, s, w)
         | Inr (filename, function_paths) \<Rightarrow>
             (let w1 = emit (Document_file filename function_paths) w
              in case document_file svc s (files w1) filename function_paths of
                   (Inl e, s') \<Rightarrow> (Inl e, s', w1)
                 | (Inr (modified_file, reports), s') \<Rightarrow>
                     (case handle_result args filename modified_file reports w1 of
                        (r, w2) \<Rightarrow> (r, s', w2)))))"

fun process_files ::
  "'e docstring_service \<Rightarrow> arguments \<Rightarrow> string list \<Rightarrow> 'e \<times> world
     \<Rightarrow> (error + unit) \<times> 'e \<times> world" where
  "process_files svc args [] st = (Inr (), st)"
| "process_files svc args (decorated_filename # remaining) st =
     (case process_file svc args decorated_filename st of
        (Inl e, st') \<Rightarrow> (Inl e, st')
      | (Inr u, st') \<Rightarrow> process_files svc args remaining st')"

definition main ::
  "'e docstring_service \<Rightarrow> cli_option list \<Rightarrow> string list \<Rightarrow> world
     \<Rightarrow> (error + unit) \<times> world" where
  "main svc opts names w =
     (case get_arguments opts names w of
        (Inl e, w1) \<Rightarrow> (Inl e, w1)
      | (Inr args, w1) \<Rightarrow>
          (let logger = get_logger args;
               w2 = emit (Create_service args logger) w1
           in case new_service svc args logger of
                Inl e \<Rightarrow> (Inl e, w2)
              | Inr s \<Rightarrow>
                  (case process_files svc args (filenames args) (s, w2) of
                     (r, s', w3) \<Rightarrow> (r, w3))))"

section \<open>Observations on a run\<close>

fun is_report_event :: "event \<Rightarrow> bool" where
  "is_report_event (Print_separator line) = True"
| "is_report_event (Print_report r) = True"
| "is_report_event e = False"

definition save_behaviour ::
  "world \<Rightarrow> (string \<rightharpoonup> string) \<times> string list \<times> event list" where
  \<comment> \<open>what was written, what was read from the user, and every call but the report's prints\<close>
  "save_behaviour w = (files w, stdin w, filter (\<lambda>e. \<not> is_report_event e) (trace w))"

fun called_file :: "event \<Rightarrow> string option" where
  "called_file (Document_file filename function_paths) = Some filename"
| "called_file e = None"

definition processed :: "world \<Rightarrow> world \<Rightarrow> string list" where
  \<comment> \<open>the files handed to \<open>document_file\<close> between two states, in order\<close>
  "processed w w' = List.map_filter called_file (new_events w w')"

definition target_of :: "string \<Rightarrow> string" where
  \<comment> \<open>the part of a decorated filename before its first colon\<close>
  "target_of decorated_filename = takeWhile (\<lambda>c. c \<noteq> CHR '':'') decorated_filename"

definition report_lines :: "arguments \<Rightarrow> report_entry list option \<Rightarrow> event list" where
  \<comment> \<open>the separator and then every entry in the order given, when \<open>report\<close> is set and
      there is an entry; nothing otherwise\<close>
  "report_lines args reports =
     (case reports of
        None \<Rightarrow> []
      | Some rs \<Rightarrow>
          if report args \<and> rs \<noteq> []
          then Print_separator (replicate 79 CHR ''-'') # map Print_report rs
          else [])"

definition save_traces :: "arguments \<Rightarrow> string \<Rightarrow> event list list" where
  \<comment> \<open>the courses the save decision of one file can take: nothing without \<open>modify\<close>; the
      prompt, then perhaps the write and a status line, with \<open>preview\<close>; the write and
      perhaps its status line otherwise\<close>
  "save_traces args filename =
     (if \<not> modify args then [[]]
      else if preview args
      then [[Input_prompt (save_prompt filename)],
            [Input_prompt (save_prompt filename), Open_write filename],
            [Input_prompt (save_prompt filename), Open_write filename,
             Print_status (''Updated '' @ filename)],
            [Input_prompt (save_prompt filename),
             Print_status (filename @ '' was NOT updated.'')]]
      else [[Open_write filename],
            [Open_write filename, Print_status (''Updated '' @ filename)]])"

section \<open>A concrete service and concrete environments\<close>

definition demo_service :: "nat docstring_service" where
  \<comment> \<open>counts its calls; a file it cannot read yields an error entry, not an exception\<close>
  "demo_service =
     \<lparr>new_service = (\<lambda>args logger. Inr 0),
      document_file = (\<lambda>n fs filename function_paths.
        (case fs filename of
           None \<Rightarrow> (Inr ([], Some [''error: cannot read '' @ filename]), Suc n)
         | Some src \<Rightarrow> (Inr (''# documented'' @ src, Some [''created: '' @ filename]), Suc n)))\<rparr>"

definition picky_service :: "nat docstring_service" where
  \<comment> \<open>as \<open>demo_service\<close>, but \<open>document_file\<close> raises on \<open>z.py\<close>\<close>
  "picky_service =
     \<lparr>new_service = (\<lambda>args logger. Inr 0),
      document_file = (\<lambda>n fs filename function_paths.
        if filename = ''z.py'' then (Inl (ServiceError filename), Suc n)
        else document_file demo_service n fs filename function_paths)\<rparr>"

definition demo_world :: world where
  "demo_world =
     \<lparr>files = [example_docstring_path \<mapsto> ''D'', example_function_path \<mapsto> ''F'',
               ''a.py'' \<mapsto> ''x'', ''b.py'' \<mapsto> ''y''],
      unwritable = (\<lambda>path. False),
      stdin = ['' Y '', ''n''],
      trace = []\<rparr>"

definition readonly_world :: world where
  \<comment> \<open>as \<open>demo_world\<close>, with \<open>a.py\<close> not writable\<close>
  "readonly_world = demo_world\<lparr>unwritable := (\<lambda>path. path = ''a.py'')\<rparr>"

definition bare_world :: world where
  \<comment> \<open>as \<open>demo_world\<close>, run from a directory without \<open>samples/\<close>\<close>
  "bare_world = demo_world\<lparr>files := [''a.py'' \<mapsto> ''x'']\<rparr>"

definition demo_args :: arguments where
  "demo_args =
     \<lparr>attempts = 5, create = True, depth = 1, log_level = 0, modify = False,
      preview = False, report = False, update = False, validate = False,
      filenames = [''a.py'', ''b.py''], example_docstring = ''D'', example_function = ''F''\<rparr>"

definition modify_args :: arguments where
  \<comment> \<open>\<open>-m\<close>\<close>
  "modify_args = demo_args\<lparr>modify := True\<rparr>"

definition modify_report_args :: arguments where
  \<comment> \<open>\<open>-m -r\<close>\<close>
  "modify_report_args = demo_args\<lparr>modify := True, report := True\<rparr>"

definition preview_report_args :: arguments where
  \<comment> \<open>\<open>-p -r\<close>\<close>
  "preview_report_args = demo_args\<lparr>preview := True, report := True\<rparr>"

definition confirm_args :: arguments where
  \<comment> \<open>\<open>-m -p -r\<close>\<close>
  "confirm_args = demo_args\<lparr>modify := True, preview := True, report := True\<rparr>"

section \<open>Splitting and joining\<close>

lemma str_split_not_Nil: "str_split sep s \<noteq> []"
  by (subst str_split.simps) simp

lemma str_split_no_sep: "sep \<notin> set s \<Longrightarrow> str_split sep s = [s]"
  by (subst str_split.simps) simp

lemma str_split_sep:
  "sep \<notin> set p \<Longrightarrow> str_split sep (p @ sep # s) = p # str_split sep s"
proof -
  assume a: "sep \<notin> set p"
  have t: "takeWhile (\<lambda>c. c \<noteq> sep) (p @ sep # s) = p"
    using a by (induction p) auto
  have d: "dropWhile (\<lambda>c. c \<noteq> sep) (p @ sep # s) = sep # s"
    using a by (induction p) auto
  show ?thesis
    by (subst str_split.simps) (simp add: t d)
qed

lemma str_split_join:
  "list_all (\<lambda>seg. sep \<notin> set seg) (p # ps) \<Longrightarrow> str_split sep (str_join sep (p # ps)) = p # ps"
proof (induction ps arbitrary: p)
  case Nil
  then show ?case by (simp add: str_split_no_sep)
next
  case (Cons q qs)
  then show ?case by (simp add: str_split_sep)
qed

lemma str_join_split: "str_join sep (str_split sep s) = s"
proof (induction sep s rule: str_split.induct)
  case (1 sep s)
  show ?case
  proof (cases "sep \<in> set s")
    case False
    then show ?thesis by (simp add: str_split_no_sep)
  next
    case True
    let ?r = "tl (dropWhile (\<lambda>c. c \<noteq> sep) s)"
    have d: "dropWhile (\<lambda>c. c \<noteq> sep) s = sep # ?r"
      using True hd_dropWhile [of "\<lambda>c. c \<noteq> sep" s]
      by (cases "dropWhile (\<lambda>c. c \<noteq> sep) s") auto
    obtain x xs where x: "str_split sep ?r = x # xs"
      using str_split_not_Nil [of sep ?r] by (cases "str_split sep ?r") auto
    have "str_join sep (str_split sep s) = takeWhile (\<lambda>c. c \<noteq> sep) s @ sep # str_join sep (str_split sep ?r)"
      using True x by (subst str_split.simps) simp
    also have "\<dots> = takeWhile (\<lambda>c. c \<noteq> sep) s @ sep # ?r"
      using "1" True by simp
    also have "\<dots> = s"
      using d takeWhile_dropWhile_id [of "\<lambda>c. c \<noteq> sep" s] by simp
    finally show ?thesis .
  qed
qed

lemma str_split_segments: "list_all (\<lambda>seg. sep \<notin> set seg) (str_split sep s)"
proof (induction sep s rule: str_split.induct)
  case (1 sep s)
  show ?case
  proof (cases "sep \<in> set s")
    case False
    then show ?thesis by (simp add: str_split_no_sep)
  next
    case True
    have "sep \<notin> set (takeWhile (\<lambda>c. c \<noteq> sep) s)"
      by (auto dest: set_takeWhileD)
    then show ?thesis
      using "1" True by (subst str_split.simps) simp
  qed
qed

section \<open>The trace only grows\<close>

lemma emit_simps [simp]:
  "trace (emit e w) = trace w @ [e]"
  "files (emit e w) = files w"
  "stdin (emit e w) = stdin w"
  "unwritable (emit e w) = unwritable w"
  by (simp_all add: emit_def)

lemma new_events_append [simp]: "trace w' = trace w @ evs \<Longrightarrow> new_events w w' = evs"
  by (simp add: new_events_def)

lemma new_events_same [simp]: "new_events w w = []"
  by (simp add: new_events_def)

lemma print_reports_fold:
  "foldl (\<lambda>w' r. emit (Print_report r) w') w0 rs = w0\<lparr>trace := trace w0 @ map Print_report rs\<rparr>"
  by (induction rs arbitrary: w0) (simp_all add: emit_def)

lemma report_step_trace:
  "\<exists>evs. trace (report_step args reports w) = trace w @ evs"
  by (simp add: report_step_def print_reports_fold split: option.split)

lemma save_step_trace:
  "\<exists>evs. trace (snd (save_step args filename merged w)) = trace w @ evs"
  by (simp add: save_step_def confirm_save_def py_input_def write_file_def Let_def
      split: list.split)

lemma handle_result_trace:
  "\<exists>evs. trace (snd (handle_result args filename merged reports w)) = trace w @ evs"
proof -
  obtain e1 where e1: "trace (show_preview args merged w) = trace w @ e1"
    by (cases "preview args") (simp_all add: show_preview_def)
  obtain r w1 where s: "save_step args filename merged (show_preview args merged w) = (r, w1)"
    by (cases "save_step args filename merged (show_preview args merged w)")
  obtain e2 where e2: "trace w1 = trace (show_preview args merged w) @ e2"
    using save_step_trace [of args filename merged "show_preview args merged w"] s by auto
  obtain e3 where e3: "trace (report_step args reports w1) = trace w1 @ e3"
    using report_step_trace by blast
  show ?thesis
    using e1 e2 e3 s by (cases r) (simp_all add: handle_result_def)
qed

section \<open>Decorated filenames\<close>

lemma split_decorated_join:
  assumes "list_all (\<lambda>seg. CHR '':'' \<notin> set seg) (path # scopes)"
  shows "split_decorated (str_join CHR '':'' (path # scopes)) =
         Inr (path, if scopes = [] then None else Some scopes)"
  using assms by (simp add: split_decorated_def str_split_join)

lemma process_file_first_event:
  assumes "split_decorated d = Inr (filename, function_paths)"
  shows "\<exists>rest. new_events w (snd (snd (process_file svc args d (s, w)))) =
           Document_file filename function_paths # rest"
proof (cases "document_file svc s (files w) filename function_paths")
  case (Pair r s')
  show ?thesis
  proof (cases r)
    case (Inl e)
    then show ?thesis using assms Pair by (simp add: process_file_def)
  next
    case (Inr res)
    obtain merged reports where res: "res = (merged, reports)" by (cases res)
    obtain x w2 where h: "handle_result args filename merged reports
        (emit (Document_file filename function_paths) w) = (x, w2)"
      by (cases "handle_result args filename merged reports
        (emit (Document_file filename function_paths) w)")
    obtain evs where "trace w2 = trace (emit (Document_file filename function_paths) w) @ evs"
      using handle_result_trace [of args filename merged reports
          "emit (Document_file filename function_paths) w"] h by auto
    then show ?thesis using assms Pair Inr res h by (simp add: process_file_def)
  qed
qed

lemma process_file_unfold:
  assumes "split_decorated d = Inr (filename, function_paths)"
  shows "process_file svc args d (s, w) =
         (case document_file svc s (files w) filename function_paths of
            (Inl e, s') \<Rightarrow> (Inl e, s', emit (Document_file filename function_paths) w)
          | (Inr (merged, reports), s') \<Rightarrow>
              (fst (handle_result args filename merged reports
                      (emit (Document_file filename function_paths) w)), s',
               snd (handle_result args filename merged reports
                      (emit (Document_file filename function_paths) w))))"
  using assms by (simp add: process_file_def split: prod.split sum.split)

text \<open>
  C1. A decorated filename \<open>path:scope1:...:scopeN\<close> is split at its colons: the
  segment before the first colon is the file path handed to \<open>document_file\<close>, every later
  segment is one scope path, and a filename with no colon is passed with \<open>None\<close> for the
  scope paths. Every string is of that form. The iteration is what the service's
  \<open>document_file\<close> returns when applied to exactly this path and these scope paths, in
  the state and on the files of that moment: its exception, or else its merged text and
  reports, which go to the rest of the loop body.
\<close>

theorem decorated_filename_split:
  assumes "list_all (\<lambda>seg. CHR '':'' \<notin> set seg) (path # scopes)"
  shows "split_decorated (str_join CHR '':'' (path # scopes)) =
           Inr (path, if scopes = [] then None else Some scopes)
       \<and> (\<exists>rest. new_events w
             (snd (snd (process_file svc args (str_join CHR '':'' (path # scopes)) (s, w)))) =
             Document_file path (if scopes = [] then None else Some scopes) # rest)
       \<and> (\<exists>p ss. list_all (\<lambda>seg. CHR '':'' \<notin> set seg) (p # ss)
             \<and> d = str_join CHR '':'' (p # ss))
       \<and> process_file svc args (str_join CHR '':'' (path # scopes)) (s, w) =
           (case document_file svc s (files w) path (if scopes = [] then None else Some scopes) of
              (Inl e, s') \<Rightarrow>
                (Inl e, s',
                 emit (Document_file path (if scopes = [] then None else Some scopes)) w)
            | (Inr (modified_file, reports), s') \<Rightarrow>
                (fst (handle_result args path modified_file reports
                        (emit (Document_file path (if scopes = [] then None else Some scopes)) w)),
                 s',
                 snd (handle_result args path modified_file reports
                        (emit (Document_file path (if scopes = [] then None else Some scopes)) w))))"
proof -
  have a: "split_decorated (str_join CHR '':'' (path # scopes)) =
           Inr (path, if scopes = [] then None else Some scopes)"
    using assms by (rule split_decorated_join)
  obtain p ss where ps: "str_split CHR '':'' d = p # ss"
    using str_split_not_Nil [of "CHR '':''" d] by (cases "str_split CHR '':'' d") auto
  have c: "list_all (\<lambda>seg. CHR '':'' \<notin> set seg) (p # ss) \<and> d = str_join CHR '':'' (p # ss)"
    using str_split_segments [of "CHR '':''" d] str_join_split [of "CHR '':''" d] ps by simp
  have b: "\<exists>rest. new_events w
             (snd (snd (process_file svc args (str_join CHR '':'' (path # scopes)) (s, w)))) =
             Document_file path (if scopes = [] then None else Some scopes) # rest"
    by (rule process_file_first_event [OF a])
  have c': "\<exists>p ss. list_all (\<lambda>seg. CHR '':'' \<notin> set seg) (p # ss)
             \<and> d = str_join CHR '':'' (p # ss)"
    using c by blast
  note e = process_file_unfold [OF a, of svc args s w]
  show ?thesis
    by (rule conjI [OF a conjI [OF b conjI [OF c' e]]])
qed

theorem decorated_filename_split_witness:
  "list_all (\<lambda>seg. CHR '':'' \<notin> set seg) [''a.py'', ''foo.bar'', ''baz'']
   \<and> split_decorated ''a.py:foo.bar:baz'' = Inr (''a.py'', Some [''foo.bar'', ''baz''])
   \<and> hd (new_events demo_world
       (snd (snd (process_file demo_service demo_args ''a.py:foo.bar:baz'' (0, demo_world))))) =
       Document_file ''a.py'' (Some [''foo.bar'', ''baz''])
   \<and> split_decorated ''a.py'' = Inr (''a.py'', None)
   \<and> fst (snd (process_file demo_service demo_args ''a.py:foo.bar:baz'' (0, demo_world))) =
       snd (document_file demo_service 0 (files demo_world) ''a.py'' (Some [''foo.bar'', ''baz'']))
   \<and> fst (snd (process_file picky_service demo_args ''z.py'' (0, demo_world))) =
       snd (document_file picky_service 0 (files demo_world) ''z.py'' None)
   \<and> document_file picky_service 0 (files demo_world) ''z.py'' None =
       (Inl (ServiceError ''z.py''), Suc 0)
   \<and> fst (process_file picky_service demo_args ''z.py'' (0, demo_world)) =
       Inl (ServiceError ''z.py'')"
proof -
  have h: "list_all (\<lambda>seg. CHR '':'' \<notin> set seg) (''a.py'' # [''foo.bar'', ''baz''])"
    by simp
  have h': "list_all (\<lambda>seg. CHR '':'' \<notin> set seg) (''a.py'' # [])"
    by simp
  have h'': "list_all (\<lambda>seg. CHR '':'' \<notin> set seg) (''z.py'' # [])"
    by simp
  have j: "str_join CHR '':'' [''a.py'', ''foo.bar'', ''baz''] = ''a.py:foo.bar:baz''"
    by simp
  note t = decorated_filename_split [OF h, where w = demo_world and svc = demo_service
        and args = demo_args and s = 0 and d = "''b.py''", unfolded j]
  note t' = decorated_filename_split [OF h', where w = demo_world and svc = demo_service
        and args = demo_args and s = 0 and d = "''b.py''"]
  note t'' = decorated_filename_split [OF h'', where w = demo_world and svc = picky_service
        and args = demo_args and s = 0 and d = "''b.py''"]
  have a: "split_decorated ''a.py:foo.bar:baz'' = Inr (''a.py'', Some [''foo.bar'', ''baz''])"
    using t [THEN conjunct1] by simp
  have b: "hd (new_events demo_world
       (snd (snd (process_file demo_service demo_args ''a.py:foo.bar:baz'' (0, demo_world))))) =
       Document_file ''a.py'' (Some [''foo.bar'', ''baz''])"
    using t [THEN conjunct2, THEN conjunct1] by auto
  have c: "split_decorated ''a.py'' = Inr (''a.py'', None)"
    using t' [THEN conjunct1] by simp
  have d: "fst (snd (process_file demo_service demo_args ''a.py:foo.bar:baz'' (0, demo_world))) =
       snd (document_file demo_service 0 (files demo_world) ''a.py'' (Some [''foo.bar'', ''baz'']))"
    using t [THEN conjunct2, THEN conjunct2, THEN conjunct2]
    by (simp split: prod.split sum.split)
  have z: "document_file picky_service 0 (files demo_world) ''z.py'' None =
      (Inl (ServiceError ''z.py''), Suc 0)"
    by (simp add: picky_service_def)
  have e: "process_file picky_service demo_args ''z.py'' (0, demo_world) =
      (Inl (ServiceError ''z.py''), Suc 0, emit (Document_file ''z.py'' None) demo_world)"
    using t'' [THEN conjunct2, THEN conjunct2, THEN conjunct2] by (simp add: z)
  have f: "fst (snd (process_file picky_service demo_args ''z.py'' (0, demo_world))) =
       snd (document_file picky_service 0 (files demo_world) ''z.py'' None)"
    by (simp add: e z)
  have g: "fst (process_file picky_service demo_args ''z.py'' (0, demo_world)) =
       Inl (ServiceError ''z.py'')"
    by (simp add: e)
  show ?thesis
    by (rule conjI [OF h conjI [OF a conjI [OF b conjI [OF c conjI [OF d
        conjI [OF f conjI [OF z g]]]]]]])
qed

section \<open>One file\<close>

lemma split_decorated_target: "\<exists>paths. split_decorated d = Inr (target_of d, paths)"
proof (cases "CHR '':'' \<in> set d")
  case True
  then show ?thesis
    unfolding split_decorated_def target_of_def
    by (subst str_split.simps) simp
next
  case False
  have t: "takeWhile (\<lambda>c. c \<noteq> CHR '':'') d = d"
    using False by (induction d) auto
  show ?thesis
    by (simp add: split_decorated_def target_of_def str_split_no_sep [OF False] t)
qed

lemma handle_result_unfold:
  "handle_result args filename merged reports w =
     (case save_step args filename merged (show_preview args merged w) of
        (Inl e, w1) \<Rightarrow> (Inl e, w1)
      | (Inr u, w1) \<Rightarrow> (Inr (), report_step args reports w1))"
  by (simp add: handle_result_def)

lemma save_behaviour_report_step [simp]:
  "save_behaviour (report_step args reports w) = save_behaviour w"
  by (simp add: save_behaviour_def report_step_def print_reports_fold filter_map comp_def
      split: option.split)

lemma save_step_flags:
  "modify a1 = modify a2 \<Longrightarrow> preview a1 = preview a2 \<Longrightarrow>
   save_step a1 filename merged w = save_step a2 filename merged w"
  by (simp add: save_step_def confirm_save_def)

lemma show_preview_flags:
  "preview a1 = preview a2 \<Longrightarrow> show_preview a1 merged w = show_preview a2 merged w"
  by (simp add: show_preview_def)

text \<open>
  C3. Whether a file's merged text is previewed, written or discarded depends on the
  \<open>modify\<close> and \<open>preview\<close> flags, the merged text and the user's answer only: two runs
  that agree on these and differ in every other flag and in the report entries returned
  by the service raise the same exception or none, leave the same files, consume the same
  input and make the same calls, the printing of the report apart.
\<close>

theorem save_decision_ignores_reports:
  assumes "modify a1 = modify a2" and "preview a1 = preview a2"
  shows "fst (handle_result a1 filename merged reports1 w) =
         fst (handle_result a2 filename merged reports2 w)
       \<and> save_behaviour (snd (handle_result a1 filename merged reports1 w)) =
         save_behaviour (snd (handle_result a2 filename merged reports2 w))"
proof -
  have eq: "save_step a1 filename merged (show_preview a1 merged w) =
            save_step a2 filename merged (show_preview a2 merged w)"
    using show_preview_flags [OF assms(2), of merged w]
      save_step_flags [OF assms, of filename merged "show_preview a2 merged w"]
    by simp
  obtain r w1 where r: "save_step a2 filename merged (show_preview a2 merged w) = (r, w1)"
    by (cases "save_step a2 filename merged (show_preview a2 merged w)")
  show ?thesis
  proof (cases r)
    case (Inl e)
    have "handle_result a1 filename merged reports1 w = (Inl e, w1)"
      unfolding handle_result_unfold eq r Inl by simp
    moreover have "handle_result a2 filename merged reports2 w = (Inl e, w1)"
      unfolding handle_result_unfold r Inl by simp
    ultimately show ?thesis
      by simp
  next
    case (Inr u)
    have "handle_result a1 filename merged reports1 w = (Inr (), report_step a1 reports1 w1)"
      unfolding handle_result_unfold eq r Inr by simp
    moreover have "handle_result a2 filename merged reports2 w =
        (Inr (), report_step a2 reports2 w1)"
      unfolding handle_result_unfold r Inr by simp
    ultimately show ?thesis
      by simp
  qed
qed

theorem save_decision_ignores_reports_witness:
  "modify modify_report_args = modify modify_args
   \<and> preview modify_report_args = preview modify_args
   \<and> fst (handle_result modify_report_args ''a.py'' ''m'' (Some [''failed: foo'']) demo_world) =
     fst (handle_result modify_args ''a.py'' ''m'' None demo_world)
   \<and> save_behaviour
       (snd (handle_result modify_report_args ''a.py'' ''m'' (Some [''failed: foo'']) demo_world)) =
     save_behaviour (snd (handle_result modify_args ''a.py'' ''m'' None demo_world))
   \<and> trace (snd (handle_result modify_report_args ''a.py'' ''m'' (Some [''failed: foo''])
         demo_world)) \<noteq>
     trace (snd (handle_result modify_args ''a.py'' ''m'' None demo_world))"
proof -
  have m: "modify modify_report_args = modify modify_args"
    by (simp add: modify_report_args_def modify_args_def)
  have p: "preview modify_report_args = preview modify_args"
    by (simp add: modify_report_args_def modify_args_def)
  have d: "trace (snd (handle_result modify_report_args ''a.py'' ''m'' (Some [''failed: foo''])
         demo_world)) \<noteq>
     trace (snd (handle_result modify_args ''a.py'' ''m'' None demo_world))"
    by code_simp
  note t = save_decision_ignores_reports [OF m p, of "''a.py''" "''m''"
        "Some [''failed: foo'']" demo_world None]
  show ?thesis
    using m p d t by blast
qed

lemma handle_result_preview:
  assumes "preview args"
  shows "\<exists>rest. trace (snd (handle_result args filename merged reports w)) =
           trace w @ Print_preview merged # rest"
proof -
  let ?w0 = "show_preview args merged w"
  have e1: "trace ?w0 = trace w @ [Print_preview merged]"
    using assms by (simp add: show_preview_def)
  obtain r w1 where s: "save_step args filename merged ?w0 = (r, w1)"
    by (cases "save_step args filename merged ?w0")
  obtain e2 where e2: "trace w1 = trace ?w0 @ e2"
    using save_step_trace [of args filename merged ?w0] s by auto
  obtain e3 where e3: "trace (report_step args reports w1) = trace w1 @ e3"
    using report_step_trace by blast
  show ?thesis
    using e1 e2 e3 s by (cases r) (simp_all add: handle_result_unfold)
qed

lemma handle_result_no_modify:
  assumes "\<not> modify args"
  shows "handle_result args filename merged reports w =
         (Inr (), report_step args reports (show_preview args merged w))"
  using assms by (simp add: handle_result_unfold save_step_def)

lemma report_step_frame [simp]:
  "files (report_step args reports w) = files w"
  "stdin (report_step args reports w) = stdin w"
  "unwritable (report_step args reports w) = unwritable w"
  by (simp_all add: report_step_def print_reports_fold split: option.split)

lemma show_preview_frame [simp]:
  "files (show_preview args merged w) = files w"
  "stdin (show_preview args merged w) = stdin w"
  "unwritable (show_preview args merged w) = unwritable w"
  by (simp_all add: show_preview_def)

text \<open>
  C5. When \<open>preview\<close> is set, the first thing the driver does with the merged text that
  \<open>document_file\<close> returned is to print it, in full, whatever the other flags are; with
  \<open>modify\<close> unset the text is printed and no file changes.
\<close>

theorem preview_prints_merged_text:
  assumes "split_decorated d = Inr (filename, function_paths)"
    and "document_file svc s (files w) filename function_paths = (Inr (merged, reports), s')"
    and "preview args"
  shows "(\<exists>rest. new_events w (snd (snd (process_file svc args d (s, w)))) =
            Document_file filename function_paths # Print_preview merged # rest)
       \<and> (\<not> modify args \<longrightarrow> files (snd (snd (process_file svc args d (s, w)))) = files w)"
proof -
  let ?w0 = "emit (Document_file filename function_paths) w"
  have u: "snd (snd (process_file svc args d (s, w))) =
           snd (handle_result args filename merged reports ?w0)"
    using assms(1,2) by (simp add: process_file_unfold)
  obtain rest where "trace (snd (handle_result args filename merged reports ?w0)) =
      trace ?w0 @ Print_preview merged # rest"
    using handle_result_preview [OF assms(3)] by blast
  then have a: "\<exists>rest. new_events w (snd (snd (process_file svc args d (s, w)))) =
            Document_file filename function_paths # Print_preview merged # rest"
    using u by simp
  have b: "\<not> modify args \<longrightarrow> files (snd (snd (process_file svc args d (s, w)))) = files w"
    using u by (simp add: handle_result_no_modify)
  show ?thesis
    using a b by (rule conjI)
qed

theorem preview_prints_merged_text_witness:
  "split_decorated ''a.py'' = Inr (''a.py'', None)
   \<and> document_file demo_service 0 (files demo_world) ''a.py'' None =
       (Inr (''# documentedx'', Some [''created: a.py'']), Suc 0)
   \<and> preview preview_report_args
   \<and> take 2 (new_events demo_world
         (snd (snd (process_file demo_service preview_report_args ''a.py'' (0, demo_world))))) =
       [Document_file ''a.py'' None, Print_preview ''# documentedx'']
   \<and> \<not> modify preview_report_args
   \<and> files (snd (snd (process_file demo_service preview_report_args ''a.py'' (0, demo_world)))) =
       files demo_world"
proof -
  have h1: "split_decorated ''a.py'' = Inr (''a.py'', None)"
    by (simp add: split_decorated_def str_split_no_sep)
  have h2: "document_file demo_service 0 (files demo_world) ''a.py'' None =
       (Inr (''# documentedx'', Some [''created: a.py'']), Suc 0)"
    by (simp add: demo_service_def demo_world_def example_docstring_path_def
        example_function_path_def)
  have h3: "preview preview_report_args"
    by (simp add: preview_report_args_def)
  have h4: "\<not> modify preview_report_args"
    by (simp add: preview_report_args_def demo_args_def)
  note t = preview_prints_merged_text [OF h1 h2 h3]
  obtain rest where r: "new_events demo_world
      (snd (snd (process_file demo_service preview_report_args ''a.py'' (0, demo_world)))) =
      Document_file ''a.py'' None # Print_preview ''# documentedx'' # rest"
    using t by blast
  have f: "files (snd (snd (process_file demo_service preview_report_args ''a.py''
      (0, demo_world)))) = files demo_world"
    using t h4 by blast
  show ?thesis
    using h1 h2 h3 h4 f by (simp add: r)
qed

section \<open>Saving\<close>

lemma handle_result_no_write:
  assumes "\<not> modify args"
  shows "files (snd (handle_result args filename merged reports w)) = files w
       \<and> stdin (snd (handle_result args filename merged reports w)) = stdin w
       \<and> (\<exists>evs. trace (snd (handle_result args filename merged reports w)) = trace w @ evs
             \<and> (\<forall>p. Open_write p \<notin> set evs))"
proof -
  have a: "\<exists>e1. trace (show_preview args merged w) = trace w @ e1 \<and> (\<forall>p. Open_write p \<notin> set e1)"
    by (cases "preview args") (simp_all add: show_preview_def)
  have b: "\<And>w1. \<exists>e2. trace (report_step args reports w1) = trace w1 @ e2
             \<and> (\<forall>p. Open_write p \<notin> set e2)"
    by (auto simp: report_step_def print_reports_fold split: option.split)
  obtain e1 where e1: "trace (show_preview args merged w) = trace w @ e1"
      "\<forall>p. Open_write p \<notin> set e1"
    using a by blast
  obtain e2 where e2: "trace (report_step args reports (show_preview args merged w)) =
      trace (show_preview args merged w) @ e2" "\<forall>p. Open_write p \<notin> set e2"
    using b by blast
  have "trace (snd (handle_result args filename merged reports w)) = trace w @ (e1 @ e2)
        \<and> (\<forall>p. Open_write p \<notin> set (e1 @ e2))"
    using e1 e2 assms by (simp add: handle_result_no_modify)
  then show ?thesis
    using assms by (auto simp: handle_result_no_modify)
qed

lemma process_file_events:
  assumes "split_decorated d = Inr (filename, function_paths)"
  shows "\<exists>rest. trace (snd (snd (process_file svc args d (s, w)))) =
           trace w @ Document_file filename function_paths # rest"
proof (cases "document_file svc s (files w) filename function_paths")
  case (Pair r s')
  show ?thesis
  proof (cases r)
    case (Inl e)
    then show ?thesis
      using Pair by (simp add: process_file_unfold [OF assms])
  next
    case (Inr res)
    obtain merged reports where res: "res = (merged, reports)"
      by (cases res)
    obtain evs where "trace (snd (handle_result args filename merged reports
        (emit (Document_file filename function_paths) w))) =
        trace (emit (Document_file filename function_paths) w) @ evs"
      using handle_result_trace by blast
    then show ?thesis
      using Pair Inr res by (simp add: process_file_unfold [OF assms])
  qed
qed

lemma process_file_trace:
  "\<exists>evs. trace (snd (snd (process_file svc args d (s, w)))) = trace w @ evs"
proof -
  obtain paths where sd: "split_decorated d = Inr (target_of d, paths)"
    using split_decorated_target by blast
  show ?thesis
    using process_file_events [OF sd, of svc args s w] by blast
qed

lemma process_files_trace:
  "\<exists>evs. trace (snd (snd (process_files svc args ds (s, w)))) = trace w @ evs"
proof (induction ds arbitrary: s w)
  case Nil
  show ?case by simp
next
  case (Cons d ds)
  obtain r s1 w1 where p: "process_file svc args d (s, w) = (r, s1, w1)"
    by (cases "process_file svc args d (s, w)")
  obtain e1 where e1: "trace w1 = trace w @ e1"
    using process_file_trace [of svc args d s w] p by auto
  show ?case
  proof (cases r)
    case (Inl e)
    then show ?thesis using p e1 by simp
  next
    case (Inr u)
    obtain e2 where "trace (snd (snd (process_files svc args ds (s1, w1)))) = trace w1 @ e2"
      using Cons.IH by blast
    then show ?thesis using p e1 Inr by simp
  qed
qed

lemma process_file_no_write:
  assumes "\<not> modify args"
  shows "files (snd (snd (process_file svc args d (s, w)))) = files w
       \<and> (\<exists>evs. trace (snd (snd (process_file svc args d (s, w)))) = trace w @ evs
             \<and> (\<forall>p. Open_write p \<notin> set evs))"
proof -
  obtain paths where sd: "split_decorated d = Inr (target_of d, paths)"
    using split_decorated_target by blast
  let ?w0 = "emit (Document_file (target_of d) paths) w"
  show ?thesis
  proof (cases "document_file svc s (files w) (target_of d) paths")
    case (Pair r s')
    show ?thesis
    proof (cases r)
      case (Inl e)
      then show ?thesis
        using Pair by (simp add: process_file_unfold [OF sd])
    next
      case (Inr res)
      obtain merged reports where res: "res = (merged, reports)"
        by (cases res)
      obtain evs where evs:
        "files (snd (handle_result args (target_of d) merged reports ?w0)) = files ?w0"
        "trace (snd (handle_result args (target_of d) merged reports ?w0)) = trace ?w0 @ evs"
        "\<forall>p. Open_write p \<notin> set evs"
        using handle_result_no_write [OF assms, of "target_of d" merged reports ?w0] by blast
      then show ?thesis
        using Pair Inr res by (simp add: process_file_unfold [OF sd])
    qed
  qed
qed

text \<open>
  C6. With \<open>preview\<close> set and \<open>modify\<close> unset the driver writes no file: over a whole
  batch it never opens a file for writing, and the files are afterwards what they were.
\<close>

theorem preview_only_writes_nothing:
  assumes "preview args" and "\<not> modify args"
  shows "files (snd (snd (process_files svc args ds (s, w)))) = files w
       \<and> (\<forall>p. Open_write p \<notin>
             set (new_events w (snd (snd (process_files svc args ds (s, w))))))"
proof -
  have "files (snd (snd (process_files svc args ds (s, w)))) = files w
       \<and> (\<exists>evs. trace (snd (snd (process_files svc args ds (s, w)))) = trace w @ evs
             \<and> (\<forall>p. Open_write p \<notin> set evs))"
  proof (induction ds arbitrary: s w)
    case Nil
    show ?case by simp
  next
    case (Cons d ds)
    obtain r s1 w1 where p: "process_file svc args d (s, w) = (r, s1, w1)"
      by (cases "process_file svc args d (s, w)")
    obtain e1 where e1: "files w1 = files w" "trace w1 = trace w @ e1"
        "\<forall>p. Open_write p \<notin> set e1"
      using process_file_no_write [OF assms(2), of svc d s w] p by auto
    show ?case
    proof (cases r)
      case (Inl e)
      then show ?thesis using p e1 by simp
    next
      case (Inr u)
      obtain e2 where "files (snd (snd (process_files svc args ds (s1, w1)))) = files w1"
          "trace (snd (snd (process_files svc args ds (s1, w1)))) = trace w1 @ e2"
          "\<forall>p. Open_write p \<notin> set e2"
        using Cons.IH by blast
      then show ?thesis using p e1 Inr by simp
    qed
  qed
  then show ?thesis
    by auto
qed

theorem preview_only_writes_nothing_witness:
  "preview preview_report_args \<and> \<not> modify preview_report_args
   \<and> files (snd (snd (process_files demo_service preview_report_args [''a.py'', ''b.py:f'']
         (0, demo_world)))) = files demo_world
   \<and> Open_write ''a.py'' \<notin> set (new_events demo_world
         (snd (snd (process_files demo_service preview_report_args [''a.py'', ''b.py:f'']
           (0, demo_world)))))
   \<and> Print_preview ''# documentedx'' \<in> set (new_events demo_world
         (snd (snd (process_files demo_service preview_report_args [''a.py'', ''b.py:f'']
           (0, demo_world)))))"
proof -
  have h1: "preview preview_report_args"
    by (simp add: preview_report_args_def)
  have h2: "\<not> modify preview_report_args"
    by (simp add: preview_report_args_def demo_args_def)
  have h3: "Print_preview ''# documentedx'' \<in> set (new_events demo_world
         (snd (snd (process_files demo_service preview_report_args [''a.py'', ''b.py:f'']
           (0, demo_world)))))"
    by code_simp
  note t = preview_only_writes_nothing [OF h1 h2, of demo_service "[''a.py'', ''b.py:f'']"
      0 demo_world]
  show ?thesis
    using h1 h2 h3 t by blast
qed

lemma report_step_lines:
  "report_step args reports w = w\<lparr>trace := trace w @ report_lines args reports\<rparr>"
proof (cases reports)
  case None
  then show ?thesis
    by (simp add: report_step_def report_lines_def)
next
  case (Some rs)
  have "emit (Print_separator (replicate 79 CHR ''-'')) w =
        w\<lparr>trace := trace w @ [Print_separator (replicate 79 CHR ''-'')]\<rparr>"
    by (simp add: emit_def)
  then show ?thesis
    using Some by (simp add: report_step_def report_lines_def print_reports_fold)
qed

lemma report_lines_no_calls [simp]:
  "Input_prompt p \<notin> set (report_lines args reports)"
  "Open_write q \<notin> set (report_lines args reports)"
  "List.map_filter called_file (report_lines args reports) = []"
  by (cases reports; auto simp: report_lines_def map_filter_def comp_def)+

lemma handle_result_direct:
  assumes "modify args" and "\<not> preview args"
  shows "handle_result args filename merged reports w =
     (if unwritable w filename then (Inl (OSError filename), emit (Open_write filename) w)
      else (Inr (), report_step args reports
             (emit (Print_status (''Updated '' @ filename))
                ((emit (Open_write filename) w)\<lparr>files := (files w)(filename \<mapsto> merged)\<rparr>))))"
  using assms
  by (simp add: handle_result_def show_preview_def save_step_def confirm_save_def
      write_file_def Let_def)

lemma handle_result_eof:
  assumes "modify args" and "preview args" and "stdin w = []"
  shows "handle_result args filename merged reports w =
     (Inl EOFError, emit (Input_prompt (save_prompt filename)) (emit (Print_preview merged) w))"
  using assms
  by (simp add: handle_result_def show_preview_def save_step_def confirm_save_def
      py_input_def Let_def)

lemma handle_result_confirm:
  assumes "modify args" and "preview args" and "stdin w = line # rest"
  shows "handle_result args filename merged reports w =
     (let w1 = (emit (Input_prompt (save_prompt filename))
                  (emit (Print_preview merged) w))\<lparr>stdin := rest\<rparr>
      in if lower (strip line) = ''y''
         then (if unwritable w filename
               then (Inl (OSError filename), emit (Open_write filename) w1)
               else (Inr (), report_step args reports
                      (emit (Print_status (''Updated '' @ filename))
                         ((emit (Open_write filename) w1)
                            \<lparr>files := (files w)(filename \<mapsto> merged)\<rparr>))))
         else (Inr (), report_step args reports
                (emit (Print_status (filename @ '' was NOT updated.'')) w1)))"
  using assms
  by (simp add: handle_result_def show_preview_def save_step_def confirm_save_def
      py_input_def write_file_def Let_def)

text \<open>
  C10. With \<open>modify\<close> set, the driver asks for confirmation exactly when \<open>preview\<close> is set
  too, and with the prompt of the source. After an answer it opens the file for writing
  exactly when the answer, stripped and lowercased, is \<open>y\<close>; it then holds the merged text
  (unless the open raises), and is untouched after any other answer. With \<open>modify\<close> set and
  \<open>preview\<close> unset the file is opened for writing without a prompt and without reading input.
\<close>

theorem save_confirmation:
  assumes "modify args"
  shows "((\<exists>p. Input_prompt p \<in> set (new_events w
              (snd (handle_result args filename merged reports w)))) = preview args)
       \<and> (preview args \<longrightarrow>
            Input_prompt (save_prompt filename) \<in> set (new_events w
              (snd (handle_result args filename merged reports w))))
       \<and> (\<forall>line rest. preview args \<and> stdin w = line # rest \<longrightarrow>
            ((Open_write filename \<in> set (new_events w
                (snd (handle_result args filename merged reports w))))
              = (lower (strip line) = ''y''))
            \<and> files (snd (handle_result args filename merged reports w)) =
                (if lower (strip line) = ''y'' \<and> \<not> unwritable w filename
                 then (files w)(filename \<mapsto> merged) else files w))
       \<and> (\<not> preview args \<longrightarrow>
            Open_write filename \<in> set (new_events w
              (snd (handle_result args filename merged reports w)))
            \<and> stdin (snd (handle_result args filename merged reports w)) = stdin w
            \<and> files (snd (handle_result args filename merged reports w)) =
                (if unwritable w filename then files w else (files w)(filename \<mapsto> merged)))"
proof (cases "preview args")
  case False
  then show ?thesis
    using assms by (simp add: handle_result_direct report_step_lines)
next
  case True
  show ?thesis
  proof (cases "stdin w")
    case Nil
    then show ?thesis
      using assms True by (simp add: handle_result_eof)
  next
    case (Cons line rest)
    then show ?thesis
      using assms True by (simp add: handle_result_confirm report_step_lines Let_def)
  qed
qed

theorem save_confirmation_witness:
  "modify confirm_args \<and> preview confirm_args
   \<and> stdin demo_world = '' Y '' # [''n'']
   \<and> lower (strip '' Y '') = ''y''
   \<and> Input_prompt (save_prompt ''a.py'') \<in> set (new_events demo_world
        (snd (handle_result confirm_args ''a.py'' ''m'' None demo_world)))
   \<and> Open_write ''a.py'' \<in> set (new_events demo_world
        (snd (handle_result confirm_args ''a.py'' ''m'' None demo_world)))
   \<and> files (snd (handle_result confirm_args ''a.py'' ''m'' None demo_world)) ''a.py'' = Some ''m''"
proof -
  have h1: "modify confirm_args"
    by (simp add: confirm_args_def)
  have h2: "preview confirm_args"
    by (simp add: confirm_args_def)
  have h3: "stdin demo_world = '' Y '' # [''n'']"
    by (simp add: demo_world_def)
  have h4: "lower (strip '' Y '') = ''y''"
    by code_simp
  have h5: "\<not> unwritable demo_world ''a.py''"
    by (simp add: demo_world_def)
  note t = save_confirmation [OF h1, where w = demo_world and filename = "''a.py''"
      and merged = "''m''" and reports = None]
  have a: "Input_prompt (save_prompt ''a.py'') \<in> set (new_events demo_world
        (snd (handle_result confirm_args ''a.py'' ''m'' None demo_world)))"
    using t h2 by blast
  have b: "Open_write ''a.py'' \<in> set (new_events demo_world
        (snd (handle_result confirm_args ''a.py'' ''m'' None demo_world)))"
    using t h2 h3 h4 by blast
  have "files (snd (handle_result confirm_args ''a.py'' ''m'' None demo_world)) =
        (if lower (strip '' Y '') = ''y'' \<and> \<not> unwritable demo_world ''a.py''
         then (files demo_world)(''a.py'' \<mapsto> ''m'') else files demo_world)"
    using t h2 h3 by blast
  then have c: "files (snd (handle_result confirm_args ''a.py'' ''m'' None demo_world)) ''a.py'' =
      Some ''m''"
    using h4 h5 by simp
  show ?thesis
    using h1 h2 h3 h4 a b c by blast
qed

section \<open>Reports\<close>

lemma save_step_quiet:
  "\<exists>evs. trace (snd (save_step args filename merged w)) = trace w @ evs
         \<and> filter is_report_event evs = []"
  by (simp add: save_step_def confirm_save_def py_input_def write_file_def Let_def
      split: list.split)




section \<open>The batch\<close>

lemma map_filter_app:
  "List.map_filter f (xs @ ys) = List.map_filter f xs @ List.map_filter f ys"
  by (simp add: map_filter_def)

lemma save_step_no_calls:
  "\<exists>evs. trace (snd (save_step args filename merged w)) = trace w @ evs
         \<and> List.map_filter called_file evs = []"
  by (simp add: save_step_def confirm_save_def py_input_def write_file_def Let_def
      split: list.split)

lemma handle_result_no_calls:
  "\<exists>evs. trace (snd (handle_result args filename merged reports w)) = trace w @ evs
         \<and> List.map_filter called_file evs = []"
proof -
  let ?w1 = "show_preview args merged w"
  obtain e1 where e1: "trace ?w1 = trace w @ e1" "List.map_filter called_file e1 = []"
    by (cases "preview args") (simp_all add: show_preview_def)
  obtain r w2 where sv: "save_step args filename merged ?w1 = (r, w2)"
    by (cases "save_step args filename merged ?w1")
  obtain e2 where e2: "trace w2 = trace ?w1 @ e2" "List.map_filter called_file e2 = []"
    using save_step_no_calls [of args filename merged ?w1] sv by auto
  show ?thesis
    using sv e1 e2
    by (cases r) (simp_all add: handle_result_unfold report_step_lines map_filter_app)
qed

lemma process_file_calls_once:
  "processed w (snd (snd (process_file svc args d (s, w)))) = [target_of d]"
proof -
  obtain paths where sd: "split_decorated d = Inr (target_of d, paths)"
    using split_decorated_target by blast
  let ?w0 = "emit (Document_file (target_of d) paths) w"
  show ?thesis
  proof (cases "document_file svc s (files w) (target_of d) paths")
    case (Pair r s')
    show ?thesis
    proof (cases r)
      case (Inl e)
      then show ?thesis
        using Pair by (simp add: process_file_unfold [OF sd] processed_def)
    next
      case (Inr res)
      obtain merged reports where res: "res = (merged, reports)"
        by (cases res)
      obtain evs where "trace (snd (handle_result args (target_of d) merged reports ?w0)) =
          trace ?w0 @ evs" "List.map_filter called_file evs = []"
        using handle_result_no_calls by blast
      then show ?thesis
        using Pair Inr res
        by (simp add: process_file_unfold [OF sd] processed_def)
    qed
  qed
qed

lemma processed_append:
  "trace w1 = trace w @ e1 \<Longrightarrow> trace w2 = trace w1 @ e2 \<Longrightarrow>
   processed w w2 = processed w w1 @ processed w1 w2"
  by (simp add: processed_def map_filter_app)

lemma process_files_processed:
  "\<exists>k. k \<le> length ds
     \<and> processed w (snd (snd (process_files svc args ds (s, w)))) = map target_of (take k ds)
     \<and> (fst (process_files svc args ds (s, w)) = Inr () \<longrightarrow> k = length ds)"
proof (induction ds arbitrary: s w)
  case Nil
  show ?case by (simp add: processed_def)
next
  case (Cons d ds)
  obtain r s1 w1 where p: "process_file svc args d (s, w) = (r, s1, w1)"
    by (cases "process_file svc args d (s, w)")
  have c: "processed w w1 = [target_of d]"
    using process_file_calls_once [of w svc args d s] p by simp
  obtain e1 where e1: "trace w1 = trace w @ e1"
    using process_file_trace [of svc args d s w] p by auto
  show ?case
  proof (cases r)
    case (Inl e)
    have "processed w (snd (snd (process_files svc args (d # ds) (s, w)))) =
          map target_of (take 1 (d # ds))"
      using p Inl c by simp
    moreover have "fst (process_files svc args (d # ds) (s, w)) \<noteq> Inr ()"
      using p Inl by simp
    ultimately show ?thesis
      by (intro exI [of _ 1]) simp
  next
    case (Inr u)
    let ?w2 = "snd (snd (process_files svc args ds (s1, w1)))"
    obtain k where k: "k \<le> length ds" "processed w1 ?w2 = map target_of (take k ds)"
        "fst (process_files svc args ds (s1, w1)) = Inr () \<longrightarrow> k = length ds"
      using Cons.IH by blast
    obtain e2 where e2: "trace ?w2 = trace w1 @ e2"
      using process_files_trace [of svc args ds s1 w1] by blast
    have "processed w ?w2 = map target_of (take (Suc k) (d # ds))"
      using processed_append [OF e1 e2] c k(2) by simp
    then show ?thesis
      using p Inr k(1,3) by (intro exI [of _ "Suc k"]) simp
  qed
qed

lemma process_files_append:
  "process_files svc args (xs @ ys) st =
     (case process_files svc args xs st of
        (Inl e, st1) \<Rightarrow> (Inl e, st1)
      | (Inr u, st1) \<Rightarrow> process_files svc args ys st1)"
proof (induction xs arbitrary: st)
  case Nil
  show ?case by simp
next
  case (Cons x xs)
  show ?case
    by (cases "process_file svc args x st") (simp add: Cons.IH split: sum.split)
qed

lemma handle_result_shape:
  "\<exists>save. trace (snd (handle_result args filename merged reports w)) =
             trace w @ (if preview args then [Print_preview merged] else []) @ save
               @ (if fst (handle_result args filename merged reports w) = Inr ()
                  then report_lines args reports else [])
         \<and> save \<in> set (save_traces args filename)"
proof (cases "modify args")
  case False
  then show ?thesis
    by (simp add: handle_result_no_modify report_step_lines show_preview_def save_traces_def)
next
  case True
  show ?thesis
  proof (cases "preview args")
    case False
    then show ?thesis
      using True by (simp add: handle_result_direct report_step_lines save_traces_def)
  next
    case p: True
    show ?thesis
    proof (cases "stdin w")
      case Nil
      then show ?thesis
        using True p by (simp add: handle_result_eof save_traces_def)
    next
      case (Cons line rest)
      then show ?thesis
        using True p
        by (simp add: handle_result_confirm report_step_lines Let_def save_traces_def)
    qed
  qed
qed

lemma process_file_shape:
  assumes "split_decorated d = Inr (filename, function_paths)"
    and "document_file svc s (files w) filename function_paths = (Inr (merged, reports), s')"
  shows "\<exists>save res w'.
           process_file svc args d (s, w) = (res, s', w')
         \<and> trace w' = trace w @ Document_file filename function_paths
               # (if preview args then [Print_preview merged] else []) @ save
               @ (if res = Inr () then report_lines args reports else [])
         \<and> save \<in> set (save_traces args filename)"
proof -
  let ?w0 = "emit (Document_file filename function_paths) w"
  obtain save where sv:
    "trace (snd (handle_result args filename merged reports ?w0)) =
       trace ?w0 @ (if preview args then [Print_preview merged] else []) @ save
         @ (if fst (handle_result args filename merged reports ?w0) = Inr ()
            then report_lines args reports else [])"
    "save \<in> set (save_traces args filename)"
    using handle_result_shape [of args filename merged reports ?w0] by blast
  have u: "process_file svc args d (s, w) =
      (fst (handle_result args filename merged reports ?w0), s',
       snd (handle_result args filename merged reports ?w0))"
    using assms(2) by (simp add: process_file_unfold [OF assms(1)])
  have t: "trace (snd (handle_result args filename merged reports ?w0)) =
       trace w @ Document_file filename function_paths
         # (if preview args then [Print_preview merged] else []) @ save
         @ (if fst (handle_result args filename merged reports ?w0) = Inr ()
            then report_lines args reports else [])"
    using sv(1) by simp
  show ?thesis
    by (rule exI [of _ save], rule exI [of _ "fst (handle_result args filename merged reports ?w0)"],
        rule exI [of _ "snd (handle_result args filename merged reports ?w0)"],
        rule conjI [OF u conjI [OF t sv(2)]])
qed

text \<open>
  C8. The files are processed one after the other, in the order given. Wherever the
  batch is cut into earlier files, one file and later files, the file's iteration starts
  in the state that the earlier files left, and only if none of them raised; the later
  files start in the state that this iteration left. The calls of \<open>document_file\<close> name
  the files in the order of the command line. The iteration of a file whose call of
  \<open>document_file\<close> returns adds to the trace exactly: that call, the preview of the
  returned text if \<open>preview\<close> is set, one of the courses of the save decision for that
  file, and, if the save step did not raise, the report lines of the returned reports.
  The later files run only from the state this leaves, so their events come after it;
  if the call raises, the batch ends there with that exception.
\<close>

theorem files_processed_in_order:
  "process_files svc args (xs @ d # ys) st =
     (case process_files svc args xs st of
        (Inl e, st1) \<Rightarrow> (Inl e, st1)
      | (Inr u, st1) \<Rightarrow>
          (case process_file svc args d st1 of
             (Inl e, st2) \<Rightarrow> (Inl e, st2)
           | (Inr u', st2) \<Rightarrow> process_files svc args ys st2))
   \<and> prefix (trace (snd st)) (trace (snd (snd (process_files svc args xs st))))
   \<and> prefix (trace (snd st)) (trace (snd (snd (process_file svc args d st))))
   \<and> prefix (processed (snd st) (snd (snd (process_files svc args ds st)))) (map target_of ds)
   \<and> (fst (process_files svc args ds st) = Inr () \<longrightarrow>
        processed (snd st) (snd (snd (process_files svc args ds st))) = map target_of ds)
   \<and> (\<forall>filename function_paths s1 w1 modified_file reports s2.
        process_files svc args xs st = (Inr (), s1, w1)
        \<and> split_decorated d = Inr (filename, function_paths)
        \<and> document_file svc s1 (files w1) filename function_paths =
            (Inr (modified_file, reports), s2) \<longrightarrow>
        (\<exists>save res w2.
           process_file svc args d (s1, w1) = (res, s2, w2)
         \<and> trace w2 = trace w1 @ Document_file filename function_paths
               # (if preview args then [Print_preview modified_file] else []) @ save
               @ (if res = Inr () then report_lines args reports else [])
         \<and> save \<in> set (save_traces args filename)
         \<and> process_files svc args (xs @ d # ys) st =
             (if res = Inr () then process_files svc args ys (s2, w2) else (res, s2, w2))
         \<and> prefix (trace w2) (trace (snd (snd (process_files svc args (xs @ d # ys) st))))))
   \<and> (\<forall>filename function_paths s1 w1 e s2.
        process_files svc args xs st = (Inr (), s1, w1)
        \<and> split_decorated d = Inr (filename, function_paths)
        \<and> document_file svc s1 (files w1) filename function_paths = (Inl e, s2) \<longrightarrow>
        process_files svc args (xs @ d # ys) st =
          (Inl e, s2, emit (Document_file filename function_paths) w1))"
proof -
  obtain s w where st: "st = (s, w)"
    by (cases st)
  have a: "process_files svc args (xs @ d # ys) st =
     (case process_files svc args xs st of
        (Inl e, st1) \<Rightarrow> (Inl e, st1)
      | (Inr u, st1) \<Rightarrow>
          (case process_file svc args d st1 of
             (Inl e, st2) \<Rightarrow> (Inl e, st2)
           | (Inr u', st2) \<Rightarrow> process_files svc args ys st2))"
    by (simp only: process_files_append process_files.simps)
  have b: "prefix (trace (snd st)) (trace (snd (snd (process_files svc args xs st))))"
    using process_files_trace [of svc args xs s w] st by (auto simp: prefix_def)
  have c: "prefix (trace (snd st)) (trace (snd (snd (process_file svc args d st))))"
    using process_file_trace [of svc args d s w] st by (auto simp: prefix_def)
  obtain k where k: "k \<le> length ds"
      "processed w (snd (snd (process_files svc args ds (s, w)))) = map target_of (take k ds)"
      "fst (process_files svc args ds (s, w)) = Inr () \<longrightarrow> k = length ds"
    using process_files_processed [of ds w svc args s] by blast
  have "prefix (map target_of (take k ds)) (map target_of ds)"
    by (simp add: map_mono_prefix take_is_prefix)
  then have e: "prefix (processed (snd st) (snd (snd (process_files svc args ds st))))
      (map target_of ds)"
    using k(2) st by simp
  have f: "fst (process_files svc args ds st) = Inr () \<longrightarrow>
        processed (snd st) (snd (snd (process_files svc args ds st))) = map target_of ds"
    using k st by auto
  have g: "\<forall>filename function_paths s1 w1 modified_file reports s2.
        process_files svc args xs st = (Inr (), s1, w1)
        \<and> split_decorated d = Inr (filename, function_paths)
        \<and> document_file svc s1 (files w1) filename function_paths =
            (Inr (modified_file, reports), s2) \<longrightarrow>
        (\<exists>save res w2.
           process_file svc args d (s1, w1) = (res, s2, w2)
         \<and> trace w2 = trace w1 @ Document_file filename function_paths
               # (if preview args then [Print_preview modified_file] else []) @ save
               @ (if res = Inr () then report_lines args reports else [])
         \<and> save \<in> set (save_traces args filename)
         \<and> process_files svc args (xs @ d # ys) st =
             (if res = Inr () then process_files svc args ys (s2, w2) else (res, s2, w2))
         \<and> prefix (trace w2) (trace (snd (snd (process_files svc args (xs @ d # ys) st)))))"
  proof (intro allI impI, elim conjE)
    fix filename function_paths s1 w1 modified_file reports s2
    assume px: "process_files svc args xs st = (Inr (), s1, w1)"
      and sd: "split_decorated d = Inr (filename, function_paths)"
      and dc: "document_file svc s1 (files w1) filename function_paths =
            (Inr (modified_file, reports), s2)"
    obtain save res w2 where pf: "process_file svc args d (s1, w1) = (res, s2, w2)"
      and tr: "trace w2 = trace w1 @ Document_file filename function_paths
               # (if preview args then [Print_preview modified_file] else []) @ save
               @ (if res = Inr () then report_lines args reports else [])"
      and sv: "save \<in> set (save_traces args filename)"
      using process_file_shape [OF sd dc, of args] by blast
    have nx: "process_files svc args (xs @ d # ys) st =
             (if res = Inr () then process_files svc args ys (s2, w2) else (res, s2, w2))"
      by (cases res) (simp_all add: a px pf)
    have pr: "prefix (trace w2) (trace (snd (snd (process_files svc args (xs @ d # ys) st))))"
    proof (cases "res = Inr ()")
      case True
      then show ?thesis
        using process_files_trace [of svc args ys s2 w2] by (auto simp: nx prefix_def)
    next
      case False
      then show ?thesis
        by (simp add: nx)
    qed
    show "\<exists>save res w2.
           process_file svc args d (s1, w1) = (res, s2, w2)
         \<and> trace w2 = trace w1 @ Document_file filename function_paths
               # (if preview args then [Print_preview modified_file] else []) @ save
               @ (if res = Inr () then report_lines args reports else [])
         \<and> save \<in> set (save_traces args filename)
         \<and> process_files svc args (xs @ d # ys) st =
             (if res = Inr () then process_files svc args ys (s2, w2) else (res, s2, w2))
         \<and> prefix (trace w2) (trace (snd (snd (process_files svc args (xs @ d # ys) st))))"
      by (rule exI [of _ save], rule exI [of _ res], rule exI [of _ w2],
          rule conjI [OF pf conjI [OF tr conjI [OF sv conjI [OF nx pr]]]])
  qed
  have h: "\<forall>filename function_paths s1 w1 e s2.
        process_files svc args xs st = (Inr (), s1, w1)
        \<and> split_decorated d = Inr (filename, function_paths)
        \<and> document_file svc s1 (files w1) filename function_paths = (Inl e, s2) \<longrightarrow>
        process_files svc args (xs @ d # ys) st =
          (Inl e, s2, emit (Document_file filename function_paths) w1)"
  proof (intro allI impI, elim conjE)
    fix filename function_paths s1 w1 e s2
    assume px: "process_files svc args xs st = (Inr (), s1, w1)"
      and sd: "split_decorated d = Inr (filename, function_paths)"
      and dc: "document_file svc s1 (files w1) filename function_paths = (Inl e, s2)"
    have "process_file svc args d (s1, w1) =
        (Inl e, s2, emit (Document_file filename function_paths) w1)"
      using dc by (simp add: process_file_unfold [OF sd])
    then show "process_files svc args (xs @ d # ys) st =
          (Inl e, s2, emit (Document_file filename function_paths) w1)"
      by (simp add: a px)
  qed
  show ?thesis
    by (rule conjI [OF a conjI [OF b conjI [OF c conjI [OF e conjI [OF f conjI [OF g h]]]]]])
qed

theorem files_processed_in_order_witness:
  "fst (process_files demo_service preview_report_args [''a.py'', ''b.py:f''] (0, demo_world)) =
     Inr ()
   \<and> processed demo_world
       (snd (snd (process_files demo_service preview_report_args [''a.py'', ''b.py:f'']
          (0, demo_world)))) = [''a.py'', ''b.py'']
   \<and> prefix (trace demo_world)
       (trace (snd (snd (process_files demo_service preview_report_args [''a.py'']
          (0, demo_world)))))
   \<and> document_file demo_service (Suc 0)
       (files (snd (snd (process_files demo_service preview_report_args [''a.py'']
          (0, demo_world))))) ''b.py'' (Some [''f'']) =
       (Inr (''# documentedy'', Some [''created: b.py'']), Suc (Suc 0))
   \<and> trace (snd (snd (process_file demo_service preview_report_args ''b.py:f''
        (Suc 0, snd (snd (process_files demo_service preview_report_args [''a.py'']
          (0, demo_world))))))) =
     trace (snd (snd (process_files demo_service preview_report_args [''a.py'']
          (0, demo_world))))
     @ [Document_file ''b.py'' (Some [''f'']), Print_preview ''# documentedy'',
        Print_separator (replicate 79 CHR ''-''), Print_report ''created: b.py'']
   \<and> process_files demo_service preview_report_args [''a.py'', ''b.py:f''] (0, demo_world) =
       process_file demo_service preview_report_args ''b.py:f''
        (Suc 0, snd (snd (process_files demo_service preview_report_args [''a.py'']
          (0, demo_world))))"
proof -
  let ?wa = "snd (snd (process_files demo_service preview_report_args [''a.py'']
          (0, demo_world)))"
  have h: "fst (process_files demo_service preview_report_args [''a.py'', ''b.py:f'']
      (0, demo_world)) = Inr ()"
    by code_simp
  have m: "map target_of [''a.py'', ''b.py:f''] = [''a.py'', ''b.py'']"
    by (simp add: target_of_def)
  note t = files_processed_in_order [where svc = demo_service and args = preview_report_args
      and xs = "[''a.py'']" and d = "''b.py:f''" and ys = "[]" and st = "(0, demo_world)"
      and ds = "[''a.py'', ''b.py:f'']", unfolded snd_conv]
  note t4 = t [THEN conjunct2, THEN conjunct2, THEN conjunct2, THEN conjunct2, THEN conjunct1]
  note t5 = t [THEN conjunct2, THEN conjunct2, THEN conjunct2, THEN conjunct2, THEN conjunct2,
      THEN conjunct1]
  have "processed demo_world
       (snd (snd (process_files demo_service preview_report_args [''a.py'', ''b.py:f'']
          (0, demo_world)))) = map target_of [''a.py'', ''b.py:f'']"
    by (rule mp [OF t4 h])
  then have a: "processed demo_world
       (snd (snd (process_files demo_service preview_report_args [''a.py'', ''b.py:f'']
          (0, demo_world)))) = [''a.py'', ''b.py'']"
    by (simp only: m)
  have b: "prefix (trace demo_world) (trace ?wa)"
    by (rule t [THEN conjunct2, THEN conjunct1])
  have x1: "fst (process_files demo_service preview_report_args [''a.py''] (0, demo_world)) =
      Inr ()"
    by code_simp
  have x2: "fst (snd (process_files demo_service preview_report_args [''a.py'']
      (0, demo_world))) = Suc 0"
    by code_simp
  have px: "process_files demo_service preview_report_args [''a.py''] (0, demo_world) =
      (Inr (), Suc 0, ?wa)"
    using x1 x2 by (simp add: prod_eq_iff)
  have sd: "split_decorated ''b.py:f'' = Inr (''b.py'', Some [''f''])"
    by code_simp
  have dc: "document_file demo_service (Suc 0) (files ?wa) ''b.py'' (Some [''f'']) =
       (Inr (''# documentedy'', Some [''created: b.py'']), Suc (Suc 0))"
    by code_simp
  obtain save res w2 where
      pf: "process_file demo_service preview_report_args ''b.py:f'' (Suc 0, ?wa) =
        (res, Suc (Suc 0), w2)"
    and tr: "trace w2 = trace ?wa @ Document_file ''b.py'' (Some [''f''])
               # (if preview preview_report_args then [Print_preview ''# documentedy''] else [])
               @ save
               @ (if res = Inr () then report_lines preview_report_args
                    (Some [''created: b.py'']) else [])"
    and sv: "save \<in> set (save_traces preview_report_args ''b.py'')"
    and nx: "process_files demo_service preview_report_args ([''a.py''] @ ''b.py:f'' # [])
        (0, demo_world) =
        (if res = Inr ()
         then process_files demo_service preview_report_args [] (Suc (Suc 0), w2)
         else (res, Suc (Suc 0), w2))"
    using t5 [rule_format, OF conjI [OF px conjI [OF sd dc]]] by blast
  have s0: "save = []"
    using sv by (simp add: save_traces_def preview_report_args_def demo_args_def)
  have r0: "res = Inr ()"
    using nx h by (cases res) simp_all
  have rl: "report_lines preview_report_args (Some [''created: b.py'']) =
      [Print_separator (replicate 79 CHR ''-''), Print_report ''created: b.py'']"
    by (simp add: report_lines_def preview_report_args_def)
  have pv: "preview preview_report_args"
    by (simp add: preview_report_args_def)
  have w2: "w2 = snd (snd (process_file demo_service preview_report_args ''b.py:f''
      (Suc 0, ?wa)))"
    by (simp only: pf snd_conv)
  have c: "trace (snd (snd (process_file demo_service preview_report_args ''b.py:f''
        (Suc 0, ?wa)))) =
     trace ?wa
     @ [Document_file ''b.py'' (Some [''f'']), Print_preview ''# documentedy'',
        Print_separator (replicate 79 CHR ''-''), Print_report ''created: b.py'']"
    using tr by (simp only: w2 [symmetric] s0 r0 rl pv if_True append_Nil append_Cons simp_thms)
  have d: "process_files demo_service preview_report_args [''a.py'', ''b.py:f''] (0, demo_world) =
       process_file demo_service preview_report_args ''b.py:f'' (Suc 0, ?wa)"
  proof -
    from nx have "process_files demo_service preview_report_args [''a.py'', ''b.py:f'']
        (0, demo_world) = (Inr (), Suc (Suc 0), w2)"
      by (simp only: r0 if_True append_Cons append_Nil process_files.simps(1) simp_thms)
    then show ?thesis
      by (simp only: pf r0)
  qed
  show ?thesis
    by (rule conjI [OF h conjI [OF a conjI [OF b conjI [OF dc conjI [OF c d]]]]])
qed

section \<open>Exceptions end the batch\<close>

lemma handle_result_frame:
  "unwritable (snd (handle_result args filename merged reports w)) = unwritable w
   \<and> length (stdin w) \<le> Suc (length (stdin (snd (handle_result args filename merged reports w))))"
proof (cases "modify args")
  case False
  then show ?thesis
    by (simp add: handle_result_no_modify)
next
  case True
  show ?thesis
  proof (cases "preview args")
    case False
    then show ?thesis
      using True by (simp add: handle_result_direct report_step_lines)
  next
    case p: True
    show ?thesis
    proof (cases "stdin w")
      case Nil
      then show ?thesis
        using True p by (simp add: handle_result_eof)
    next
      case (Cons line rest)
      then show ?thesis
        using True p by (simp add: handle_result_confirm report_step_lines Let_def)
    qed
  qed
qed

lemma handle_result_completes:
  assumes "modify args \<longrightarrow> \<not> unwritable w filename"
    and "modify args \<and> preview args \<longrightarrow> stdin w \<noteq> []"
  shows "fst (handle_result args filename merged reports w) = Inr ()"
proof (cases "modify args")
  case False
  then show ?thesis
    by (simp add: handle_result_no_modify)
next
  case True
  show ?thesis
  proof (cases "preview args")
    case False
    then show ?thesis
      using True assms(1) by (simp add: handle_result_direct)
  next
    case p: True
    then obtain line rest where "stdin w = line # rest"
      using True assms(2) by (cases "stdin w") auto
    then show ?thesis
      using True p assms(1) by (simp add: handle_result_confirm Let_def)
  qed
qed

lemma handle_result_raises:
  assumes "fst (handle_result args filename merged reports w) = Inl e"
  shows "(modify args \<and> unwritable w filename \<and> e = OSError filename)
       \<or> (modify args \<and> preview args \<and> stdin w = [] \<and> e = EOFError)"
proof (cases "modify args")
  case False
  then show ?thesis
    using assms by (simp add: handle_result_no_modify)
next
  case True
  show ?thesis
  proof (cases "preview args")
    case False
    then show ?thesis
      using True assms by (simp add: handle_result_direct split: if_splits)
  next
    case p: True
    show ?thesis
    proof (cases "stdin w")
      case Nil
      then show ?thesis
        using True p assms by (simp add: handle_result_eof)
    next
      case (Cons line rest)
      then show ?thesis
        using True p assms by (simp add: handle_result_confirm Let_def split: if_splits)
    qed
  qed
qed

lemma process_file_raises:
  assumes "fst (process_file svc args d (s, w)) = Inl e"
    and "split_decorated d = Inr (filename, function_paths)"
  shows "fst (document_file svc s (files w) filename function_paths) = Inl e
       \<or> (modify args \<and> unwritable w filename \<and> e = OSError filename)
       \<or> (modify args \<and> preview args \<and> stdin w = [] \<and> e = EOFError)"
proof (cases "document_file svc s (files w) filename function_paths")
  case (Pair r s')
  show ?thesis
  proof (cases r)
    case (Inl e')
    then show ?thesis
      using assms(1) Pair by (simp add: process_file_unfold [OF assms(2)])
  next
    case (Inr res)
    obtain merged reports where res: "res = (merged, reports)"
      by (cases res)
    have "fst (handle_result args filename merged reports
        (emit (Document_file filename function_paths) w)) = Inl e"
      using assms(1) Pair Inr res by (simp add: process_file_unfold [OF assms(2)])
    then show ?thesis
      using handle_result_raises [of args filename merged reports
          "emit (Document_file filename function_paths) w" e] by simp
  qed
qed

lemma process_file_completes:
  assumes "split_decorated d = Inr (filename, function_paths)"
    and "\<not> isl (fst (document_file svc s (files w) filename function_paths))"
    and "modify args \<longrightarrow> \<not> unwritable w filename"
    and "modify args \<and> preview args \<longrightarrow> stdin w \<noteq> []"
  shows "fst (process_file svc args d (s, w)) = Inr ()
       \<and> unwritable (snd (snd (process_file svc args d (s, w)))) = unwritable w
       \<and> length (stdin w) \<le> Suc (length (stdin (snd (snd (process_file svc args d (s, w))))))"
proof -
  let ?w0 = "emit (Document_file filename function_paths) w"
  obtain r s' where dc: "document_file svc s (files w) filename function_paths = (r, s')"
    by (cases "document_file svc s (files w) filename function_paths")
  have "\<not> isl r"
    using assms(2) dc by simp
  then obtain merged reports where r: "r = Inr (merged, reports)"
    by (cases r) auto
  have u: "process_file svc args d (s, w) =
      (fst (handle_result args filename merged reports ?w0), s',
       snd (handle_result args filename merged reports ?w0))"
    using dc r by (simp add: process_file_unfold [OF assms(1)])
  have c: "fst (handle_result args filename merged reports ?w0) = Inr ()"
    using assms(3,4) by (intro handle_result_completes) simp_all
  show ?thesis
    using u c handle_result_frame [of args filename merged reports ?w0] by simp
qed

lemma process_files_complete:
  "(\<forall>xs d ys s1 w1 paths.
       ds = xs @ d # ys \<and> process_files svc args xs (s, w) = (Inr (), s1, w1)
       \<and> split_decorated d = Inr (target_of d, paths) \<longrightarrow>
       \<not> isl (fst (document_file svc s1 (files w1) (target_of d) paths))) \<Longrightarrow>
   (modify args \<longrightarrow> list_all (\<lambda>d. \<not> unwritable w (target_of d)) ds) \<Longrightarrow>
   (modify args \<and> preview args \<longrightarrow> length ds \<le> length (stdin w)) \<Longrightarrow>
   fst (process_files svc args ds (s, w)) = Inr ()"
proof (induction ds arbitrary: s w)
  case Nil
  show ?case by simp
next
  case (Cons d ds)
  obtain paths where sd: "split_decorated d = Inr (target_of d, paths)"
    using split_decorated_target [of d] by blast
  obtain r s1 w1 where p: "process_file svc args d (s, w) = (r, s1, w1)"
    by (cases "process_file svc args d (s, w)")
  have "d # ds = [] @ d # ds \<and> process_files svc args [] (s, w) = (Inr (), s, w)
       \<and> split_decorated d = Inr (target_of d, paths)"
    using sd by simp
  then have h1: "\<not> isl (fst (document_file svc s (files w) (target_of d) paths))"
    using Cons.prems(1) by blast
  have h2: "modify args \<longrightarrow> \<not> unwritable w (target_of d)"
    using Cons.prems(2) by simp
  have h3: "modify args \<and> preview args \<longrightarrow> stdin w \<noteq> []"
    using Cons.prems(3) by auto
  have f: "r = Inr ()" "unwritable w1 = unwritable w" "length (stdin w) \<le> Suc (length (stdin w1))"
    using process_file_completes [OF sd h1 h2 h3] p by simp_all
  have i0: "\<forall>xs d' ys s1' w1' paths'.
       ds = xs @ d' # ys \<and> process_files svc args xs (s1, w1) = (Inr (), s1', w1')
       \<and> split_decorated d' = Inr (target_of d', paths') \<longrightarrow>
       \<not> isl (fst (document_file svc s1' (files w1') (target_of d') paths'))"
  proof (intro allI impI, elim conjE)
    fix xs d' ys s1' w1' paths'
    assume a: "ds = xs @ d' # ys"
      and b: "process_files svc args xs (s1, w1) = (Inr (), s1', w1')"
      and c: "split_decorated d' = Inr (target_of d', paths')"
    have "d # ds = (d # xs) @ d' # ys
        \<and> process_files svc args (d # xs) (s, w) = (Inr (), s1', w1')
        \<and> split_decorated d' = Inr (target_of d', paths')"
      using a b c p f(1) by simp
    then show "\<not> isl (fst (document_file svc s1' (files w1') (target_of d') paths'))"
      using Cons.prems(1) by blast
  qed
  have i1: "modify args \<longrightarrow> list_all (\<lambda>d. \<not> unwritable w1 (target_of d)) ds"
    using Cons.prems(2) f(2) by simp
  have i2: "modify args \<and> preview args \<longrightarrow> length ds \<le> length (stdin w1)"
    using Cons.prems(3) f(3) by auto
  have "fst (process_files svc args ds (s1, w1)) = Inr ()"
    using i0 i1 i2 by (rule Cons.IH)
  then show ?case
    using p f(1) by simp
qed

lemma process_files_raised:
  assumes "process_files svc args xs (s, w) = (Inr (), s1, w1)"
    and "fst (process_file svc args d (s1, w1)) = Inl e"
  shows "process_files svc args (xs @ d # ys) (s, w) =
           (Inl e, snd (process_file svc args d (s1, w1)))
       \<and> processed w (snd (snd (process_files svc args (xs @ d # ys) (s, w)))) =
           map target_of (xs @ [d])"
proof -
  obtain st2 where p: "process_file svc args d (s1, w1) = (Inl e, st2)"
    using assms(2) by (cases "process_file svc args d (s1, w1)") simp
  have a: "process_files svc args (xs @ d # ys) (s, w) = (Inl e, st2)"
    by (simp add: process_files_append assms(1) p)
  obtain k where k: "processed w (snd (snd (process_files svc args xs (s, w)))) =
        map target_of (take k xs)"
      "fst (process_files svc args xs (s, w)) = Inr () \<longrightarrow> k = length xs"
    using process_files_processed [of xs w svc args s] by blast
  have c1: "processed w w1 = map target_of xs"
    using k assms(1) by simp
  have c2: "processed w1 (snd st2) = [target_of d]"
    using process_file_calls_once [of w1 svc args d s1] p by simp
  obtain e1 where e1: "trace w1 = trace w @ e1"
    using process_files_trace [of svc args xs s w] assms(1) by auto
  obtain e2 where e2: "trace (snd st2) = trace w1 @ e2"
    using process_file_trace [of svc args d s1 w1] p by auto
  have "processed w (snd st2) = map target_of (xs @ [d])"
    using processed_append [OF e1 e2] c1 c2 by simp
  then show ?thesis
    using a p by simp
qed




section \<open>Argument parsing\<close>

lemma arguments_examples [simp]:
  "example_docstring (namespace.extend ns (arguments.fields doc fn)) = doc"
  "example_function (namespace.extend ns (arguments.fields doc fn)) = fn"
  by (simp_all add: namespace.defs arguments.defs)

lemma get_arguments_Inr:
  assumes "get_arguments opts names w = (Inr args, w1)"
  shows "files w example_docstring_path = Some (example_docstring args)
       \<and> files w example_function_path = Some (example_function args)
       \<and> trace w1 = trace w @ [Open_read example_docstring_path, Open_read example_function_path]
       \<and> files w1 = files w"
  using assms
  by (auto simp: get_arguments_def read_file_def Let_def split: sum.splits option.splits)

lemma get_arguments_Inl:
  assumes "files w example_docstring_path = None \<or> files w example_function_path = None"
  shows "\<exists>e w1. get_arguments opts names w = (Inl e, w1) \<and> files w1 = files w
           \<and> (\<exists>evs. trace w1 = trace w @ evs \<and> List.map_filter called_file evs = []
                 \<and> (\<forall>a l. Create_service a l \<notin> set evs))"
  using assms
  by (auto simp: get_arguments_def read_file_def Let_def split: sum.splits option.splits)

lemma main_Inl:
  assumes "get_arguments opts names w = (Inl e, w1)"
  shows "main svc opts names w = (Inl e, w1)"
  using assms by (simp add: main_def)

lemma main_Inr:
  assumes "get_arguments opts names w = (Inr args, w1)"
  shows "\<exists>rest. trace (snd (main svc opts names w)) =
           trace w1 @ Create_service args (get_logger args) # rest"
proof (cases "new_service svc args (get_logger args)")
  case (Inl e)
  then show ?thesis
    using assms by (simp add: main_def Let_def)
next
  case (Inr s)
  obtain evs where "trace (snd (snd (process_files svc args (filenames args)
      (s, emit (Create_service args (get_logger args)) w1)))) =
      trace (emit (Create_service args (get_logger args)) w1) @ evs"
    using process_files_trace [of svc args "filenames args" s
        "emit (Create_service args (get_logger args)) w1"] by blast
  then show ?thesis
    using assms Inr by (auto simp: main_def Let_def split: prod.split)
qed

lemma demo_get_arguments:
  "get_arguments [] [''a.py''] demo_world =
     (Inr (demo_args\<lparr>create := False, filenames := [''a.py'']\<rparr>),
      demo_world\<lparr>trace := [Open_read example_docstring_path, Open_read example_function_path]\<rparr>)"
  by (simp add: get_arguments_def parse_args_def defaults_def read_file_def demo_world_def
      demo_args_def emit_def example_docstring_path_def example_function_path_def
      namespace.defs arguments.defs)

text \<open>
  C9. \<open>get_arguments\<close> reads the two style examples from the fixed files
  \<open>samples/example_docstring.txt\<close> and \<open>samples/example_function.txt\<close> into the arguments,
  and these arguments are what the service is created with: in a run the two reads come
  first, then the construction of the service, and only then any file of the batch. The
  run is then what the constructor of the service, applied to these arguments, gives: its
  exception, or the batch processed with these arguments by the service it returned. If
  either file cannot be read, \<open>main\<close> ends with the exception: no service is created, no
  file is processed and none is written.
\<close>

theorem style_examples_read_before_processing:
  "(\<forall>args w1. get_arguments opts names w = (Inr args, w1) \<longrightarrow>
       files w example_docstring_path = Some (example_docstring args)
     \<and> files w example_function_path = Some (example_function args)
     \<and> (\<exists>rest. new_events w (snd (main svc opts names w)) =
          Open_read example_docstring_path # Open_read example_function_path #
          Create_service args (get_logger args) # rest)
     \<and> main svc opts names w =
         (case new_service svc args (get_logger args) of
            Inl e \<Rightarrow> (Inl e, emit (Create_service args (get_logger args)) w1)
          | Inr s \<Rightarrow>
              (fst (process_files svc args (filenames args)
                      (s, emit (Create_service args (get_logger args)) w1)),
               snd (snd (process_files svc args (filenames args)
                      (s, emit (Create_service args (get_logger args)) w1))))))
   \<and> (files w example_docstring_path = None \<or> files w example_function_path = None \<longrightarrow>
       isl (fst (main svc opts names w))
     \<and> processed w (snd (main svc opts names w)) = []
     \<and> (\<forall>a l. Create_service a l \<notin> set (new_events w (snd (main svc opts names w))))
     \<and> files (snd (main svc opts names w)) = files w)
   \<and> example_docstring_path = ''samples/example_docstring.txt''
   \<and> example_function_path = ''samples/example_function.txt''"
proof -
  have a: "\<forall>args w1. get_arguments opts names w = (Inr args, w1) \<longrightarrow>
       files w example_docstring_path = Some (example_docstring args)
     \<and> files w example_function_path = Some (example_function args)
     \<and> (\<exists>rest. new_events w (snd (main svc opts names w)) =
          Open_read example_docstring_path # Open_read example_function_path #
          Create_service args (get_logger args) # rest)
     \<and> main svc opts names w =
         (case new_service svc args (get_logger args) of
            Inl e \<Rightarrow> (Inl e, emit (Create_service args (get_logger args)) w1)
          | Inr s \<Rightarrow>
              (fst (process_files svc args (filenames args)
                      (s, emit (Create_service args (get_logger args)) w1)),
               snd (snd (process_files svc args (filenames args)
                      (s, emit (Create_service args (get_logger args)) w1)))))"
  proof (intro allI impI)
    fix args w1
    assume g: "get_arguments opts names w = (Inr args, w1)"
    obtain rest where "trace (snd (main svc opts names w)) =
        trace w1 @ Create_service args (get_logger args) # rest"
      using main_Inr [OF g, of svc] by blast
    then have "new_events w (snd (main svc opts names w)) =
          Open_read example_docstring_path # Open_read example_function_path #
          Create_service args (get_logger args) # rest"
      using get_arguments_Inr [OF g] by simp
    then have x: "\<exists>rest. new_events w (snd (main svc opts names w)) =
          Open_read example_docstring_path # Open_read example_function_path #
          Create_service args (get_logger args) # rest"
      by blast
    have y: "main svc opts names w =
         (case new_service svc args (get_logger args) of
            Inl e \<Rightarrow> (Inl e, emit (Create_service args (get_logger args)) w1)
          | Inr s \<Rightarrow>
              (fst (process_files svc args (filenames args)
                      (s, emit (Create_service args (get_logger args)) w1)),
               snd (snd (process_files svc args (filenames args)
                      (s, emit (Create_service args (get_logger args)) w1)))))"
      using g by (simp add: main_def Let_def split: sum.split prod.split)
    note z = get_arguments_Inr [OF g]
    show "files w example_docstring_path = Some (example_docstring args)
     \<and> files w example_function_path = Some (example_function args)
     \<and> (\<exists>rest. new_events w (snd (main svc opts names w)) =
          Open_read example_docstring_path # Open_read example_function_path #
          Create_service args (get_logger args) # rest)
     \<and> main svc opts names w =
         (case new_service svc args (get_logger args) of
            Inl e \<Rightarrow> (Inl e, emit (Create_service args (get_logger args)) w1)
          | Inr s \<Rightarrow>
              (fst (process_files svc args (filenames args)
                      (s, emit (Create_service args (get_logger args)) w1)),
               snd (snd (process_files svc args (filenames args)
                      (s, emit (Create_service args (get_logger args)) w1)))))"
      by (rule conjI [OF z [THEN conjunct1] conjI [OF z [THEN conjunct2, THEN conjunct1]
            conjI [OF x y]]])
  qed
  have b: "files w example_docstring_path = None \<or> files w example_function_path = None \<longrightarrow>
       isl (fst (main svc opts names w))
     \<and> processed w (snd (main svc opts names w)) = []
     \<and> (\<forall>a l. Create_service a l \<notin> set (new_events w (snd (main svc opts names w))))
     \<and> files (snd (main svc opts names w)) = files w"
  proof
    assume "files w example_docstring_path = None \<or> files w example_function_path = None"
    then obtain e w1 evs where g: "get_arguments opts names w = (Inl e, w1)"
        and f: "files w1 = files w" and t: "trace w1 = trace w @ evs"
        and c: "List.map_filter called_file evs = []" "\<forall>a l. Create_service a l \<notin> set evs"
      using get_arguments_Inl [of w opts names] by blast
    show "isl (fst (main svc opts names w))
     \<and> processed w (snd (main svc opts names w)) = []
     \<and> (\<forall>a l. Create_service a l \<notin> set (new_events w (snd (main svc opts names w))))
     \<and> files (snd (main svc opts names w)) = files w"
      using f t c by (simp add: main_Inl [OF g] processed_def)
  qed
  have c: "example_docstring_path = ''samples/example_docstring.txt''"
    by (simp add: example_docstring_path_def)
  have d: "example_function_path = ''samples/example_function.txt''"
    by (simp add: example_function_path_def)
  show ?thesis
    by (rule conjI [OF a conjI [OF b conjI [OF c d]]])
qed

theorem style_examples_read_before_processing_witness:
  "get_arguments [] [''a.py''] demo_world =
     (Inr (demo_args\<lparr>create := False, filenames := [''a.py'']\<rparr>),
      demo_world\<lparr>trace := [Open_read example_docstring_path, Open_read example_function_path]\<rparr>)
   \<and> files demo_world ''samples/example_docstring.txt'' = Some ''D''
   \<and> files demo_world ''samples/example_function.txt'' = Some ''F''
   \<and> take 3 (new_events demo_world (snd (main demo_service [] [''a.py''] demo_world))) =
       [Open_read ''samples/example_docstring.txt'', Open_read ''samples/example_function.txt'',
        Create_service (demo_args\<lparr>create := False, filenames := [''a.py'']\<rparr>) CRITICAL]
   \<and> example_docstring (demo_args\<lparr>create := False, filenames := [''a.py'']\<rparr>) = ''D''
   \<and> example_function (demo_args\<lparr>create := False, filenames := [''a.py'']\<rparr>) = ''F''
   \<and> files bare_world ''samples/example_docstring.txt'' = None
   \<and> isl (fst (main demo_service [] [''a.py''] bare_world))
   \<and> processed bare_world (snd (main demo_service [] [''a.py''] bare_world)) = []
   \<and> files (snd (main demo_service [] [''a.py''] bare_world)) = files bare_world
   \<and> new_service demo_service (demo_args\<lparr>create := False, filenames := [''a.py'']\<rparr>) CRITICAL =
       Inr 0
   \<and> fst (main demo_service [] [''a.py''] demo_world) =
       fst (process_files demo_service (demo_args\<lparr>create := False, filenames := [''a.py'']\<rparr>)
              [''a.py'']
              (0, emit (Create_service (demo_args\<lparr>create := False, filenames := [''a.py'']\<rparr>)
                          CRITICAL)
                    (demo_world\<lparr>trace := [Open_read example_docstring_path,
                                            Open_read example_function_path]\<rparr>)))"
proof -
  note t = style_examples_read_before_processing [where opts = "[]" and names = "[''a.py'']"
      and w = demo_world and svc = demo_service]
  note t1 = t [THEN conjunct1, rule_format, OF demo_get_arguments]
  note p1 = t [THEN conjunct2, THEN conjunct2, THEN conjunct1]
  note p2 = t [THEN conjunct2, THEN conjunct2, THEN conjunct2]
  have l: "get_logger (demo_args\<lparr>create := False, filenames := [''a.py'']\<rparr>) = CRITICAL"
    by (simp add: get_logger_def demo_args_def)
  have a: "files demo_world ''samples/example_docstring.txt'' = Some ''D''"
    by (simp add: demo_world_def example_docstring_path_def example_function_path_def)
  have b: "files demo_world ''samples/example_function.txt'' = Some ''F''"
    by (simp add: demo_world_def example_docstring_path_def example_function_path_def)
  obtain rest where "new_events demo_world (snd (main demo_service [] [''a.py''] demo_world)) =
      Open_read example_docstring_path # Open_read example_function_path #
      Create_service (demo_args\<lparr>create := False, filenames := [''a.py'']\<rparr>)
        (get_logger (demo_args\<lparr>create := False, filenames := [''a.py'']\<rparr>)) # rest"
    using t1 [THEN conjunct2, THEN conjunct2, THEN conjunct1] by blast
  then have c: "take 3 (new_events demo_world (snd (main demo_service [] [''a.py''] demo_world))) =
       [Open_read ''samples/example_docstring.txt'', Open_read ''samples/example_function.txt'',
        Create_service (demo_args\<lparr>create := False, filenames := [''a.py'']\<rparr>) CRITICAL]"
    by (simp add: l p1 p2)
  have d: "example_docstring (demo_args\<lparr>create := False, filenames := [''a.py'']\<rparr>) = ''D''"
    using t1 [THEN conjunct1] a by (simp add: p1)
  have e: "example_function (demo_args\<lparr>create := False, filenames := [''a.py'']\<rparr>) = ''F''"
    using t1 [THEN conjunct2, THEN conjunct1] b by (simp add: p2)
  have n: "files bare_world ''samples/example_docstring.txt'' = None"
    by (simp add: bare_world_def demo_world_def)
  then have n': "files bare_world example_docstring_path = None
      \<or> files bare_world example_function_path = None"
    by (simp add: p1)
  note u = style_examples_read_before_processing [where opts = "[]" and names = "[''a.py'']"
      and w = bare_world and svc = demo_service, THEN conjunct2, THEN conjunct1, rule_format,
      OF n']
  have ns: "new_service demo_service (demo_args\<lparr>create := False, filenames := [''a.py'']\<rparr>)
      CRITICAL = Inr 0"
    by (simp add: demo_service_def)
  have fn: "filenames (demo_args\<lparr>create := False, filenames := [''a.py'']\<rparr>) = [''a.py'']"
    by simp
  have m: "fst (main demo_service [] [''a.py''] demo_world) =
       fst (process_files demo_service (demo_args\<lparr>create := False, filenames := [''a.py'']\<rparr>)
              [''a.py'']
              (0, emit (Create_service (demo_args\<lparr>create := False, filenames := [''a.py'']\<rparr>)
                          CRITICAL)
                    (demo_world\<lparr>trace := [Open_read example_docstring_path,
                                            Open_read example_function_path]\<rparr>)))"
    using t1 [THEN conjunct2, THEN conjunct2, THEN conjunct2]
    by (simp only: l ns fn sum.case fst_conv)
  show ?thesis
    by (rule conjI [OF demo_get_arguments conjI [OF a conjI [OF b conjI [OF c conjI [OF d
        conjI [OF e conjI [OF n conjI [OF u [THEN conjunct1] conjI [OF
        u [THEN conjunct2, THEN conjunct1] conjI [OF
        u [THEN conjunct2, THEN conjunct2, THEN conjunct2] conjI [OF ns m]]]]]]]]]]])
qed

text \<open>
  C2, evaluated. \<open>--attempts 0 --depth 101\<close> is accepted: the run completes, the service
  is created with \<open>attempts = 0\<close> and \<open>depth = 101\<close> and the file is processed.
  \<open>--log-level 3\<close>, declared with \<open>choices\<close>, is rejected.
\<close>

theorem out_of_range_attempts_and_depth_accepted:
  "fst (main demo_service [Opt_attempts ''0'', Opt_depth ''101''] [''a.py''] demo_world) = Inr ()
   \<and> trace (snd (main demo_service [Opt_attempts ''0'', Opt_depth ''101''] [''a.py'']
        demo_world)) =
     [Open_read ''samples/example_docstring.txt'', Open_read ''samples/example_function.txt'',
      Create_service
        \<lparr>attempts = 0, create = False, depth = 101, log_level = 0, modify = False,
         preview = False, report = False, update = False, validate = False,
         filenames = [''a.py''], example_docstring = ''D'', example_function = ''F''\<rparr>
        CRITICAL,
      Document_file ''a.py'' None]
   \<and> fst (main demo_service [Opt_log_level ''3''] [''a.py''] demo_world) =
       Inl (ArgumentError ''3'')"
  by code_simp

end
